theory Spec2Isabelle
  imports Complex_Main "HOL-Library.AList"
begin

section \<open>Numeric values\<close>

text \<open>
  The dashboard (\<^verbatim>\<open>app23.py\<close>) computes on float64 columns. A cell is modelled as
  an exact real number or one of the three IEEE special values: \<open>NaN\<close> (pandas' missing
  value), \<open>PInf\<close> and \<open>NInf\<close>. Finite arithmetic is exact (no rounding, no overflow) and
  zero is unsigned; the special values follow IEEE-754, which is what numpy does (it
  returns \<open>inf\<close>/\<open>nan\<close> on a float division by zero instead of raising).
\<close>

datatype fval = Fin real | PInf | NInf | NaN

fun fneg :: "fval \<Rightarrow> fval" where
  "fneg (Fin a) = Fin (- a)"
| "fneg PInf = NInf"
| "fneg NInf = PInf"
| "fneg NaN = NaN"

fun fadd :: "fval \<Rightarrow> fval \<Rightarrow> fval" where
  "fadd NaN _ = NaN"
| "fadd _ NaN = NaN"
| "fadd (Fin a) (Fin b) = Fin (a + b)"
| "fadd PInf NInf = NaN"
| "fadd NInf PInf = NaN"
| "fadd PInf _ = PInf"
| "fadd NInf _ = NInf"
| "fadd (Fin a) PInf = PInf"
| "fadd (Fin a) NInf = NInf"

definition fsub :: "fval \<Rightarrow> fval \<Rightarrow> fval" where
  "fsub a b = fadd a (fneg b)"

text \<open>The sign of a product or quotient with an infinite operand.\<close>

definition signed_inf :: "bool \<Rightarrow> fval" where
  "signed_inf neg = (if neg then NInf else PInf)"

fun fmul :: "fval \<Rightarrow> fval \<Rightarrow> fval" where
  "fmul NaN _ = NaN"
| "fmul _ NaN = NaN"
| "fmul (Fin a) (Fin b) = Fin (a * b)"
| "fmul (Fin a) PInf = (if a = 0 then NaN else signed_inf (a < 0))"
| "fmul (Fin a) NInf = (if a = 0 then NaN else signed_inf (0 < a))"
| "fmul PInf (Fin b) = (if b = 0 then NaN else signed_inf (b < 0))"
| "fmul NInf (Fin b) = (if b = 0 then NaN else signed_inf (0 < b))"
| "fmul PInf PInf = PInf"
| "fmul NInf NInf = PInf"
| "fmul PInf NInf = NInf"
| "fmul NInf PInf = NInf"

fun fdiv :: "fval \<Rightarrow> fval \<Rightarrow> fval" where
  "fdiv NaN _ = NaN"
| "fdiv _ NaN = NaN"
| "fdiv (Fin a) (Fin b) =
     (if b \<noteq> 0 then Fin (a / b) else if a = 0 then NaN else signed_inf (a < 0))"
| "fdiv (Fin a) _ = Fin 0"
| "fdiv PInf (Fin b) = signed_inf (b < 0)"
| "fdiv NInf (Fin b) = signed_inf (0 \<le> b)"
| "fdiv _ _ = NaN"

text \<open>Comparisons with \<open>NaN\<close> are false.\<close>

fun fless :: "fval \<Rightarrow> fval \<Rightarrow> bool" where
  "fless NaN _ = False"
| "fless _ NaN = False"
| "fless (Fin a) (Fin b) = (a < b)"
| "fless NInf NInf = False"
| "fless NInf _ = True"
| "fless _ NInf = False"
| "fless PInf _ = False"
| "fless (Fin a) PInf = True"

definition fgt :: "fval \<Rightarrow> fval \<Rightarrow> bool" where
  "fgt a b = fless b a"

fun fsqrt :: "fval \<Rightarrow> fval" where
  "fsqrt (Fin a) = (if a < 0 then NaN else Fin (sqrt a))"
| "fsqrt PInf = PInf"
| "fsqrt NInf = NaN"
| "fsqrt NaN = NaN"

fun isnan :: "fval \<Rightarrow> bool" where
  "isnan NaN = True"
| "isnan _ = False"

fun finite_val :: "fval \<Rightarrow> bool" where
  "finite_val (Fin a) = True"
| "finite_val _ = False"

fun value_of :: "fval \<Rightarrow> real" where
  "value_of (Fin a) = a"
| "value_of _ = 0"

section \<open>Series and their reductions\<close>

text \<open>
  A pandas Series is the list of its cells in index order. Every Series the program
  combines comes from one frame, so alignment on the index is alignment by position.
\<close>

type_synonym series = "fval list"

definition dropna_series :: "series \<Rightarrow> series" where
  "dropna_series xs = filter (\<lambda>x. \<not> isnan x) xs"

definition fsum :: "series \<Rightarrow> fval" where
  "fsum xs = foldr fadd xs (Fin 0)"

definition fprod :: "series \<Rightarrow> fval" where
  "fprod xs = foldr fmul xs (Fin 1)"

text \<open>\<^verbatim>\<open>Series.mean()\<close> of cells without \<open>NaN\<close>; the mean of no cell is \<open>NaN\<close>.\<close>

definition fmean :: "series \<Rightarrow> fval" where
  "fmean xs = fdiv (fsum xs) (Fin (real (length xs)))"

text \<open>
  \<^verbatim>\<open>Series.std()\<close>: the sample standard deviation (\<^verbatim>\<open>ddof=1\<close>), which is \<open>NaN\<close>
  for fewer than two observations.
\<close>

definition fstd :: "series \<Rightarrow> fval" where
  "fstd xs =
     (if length xs < 2 then NaN
      else let m = fmean xs;
               ss = fsum (map (\<lambda>x. fmul (fsub x m) (fsub x m)) xs)
           in fsqrt (fdiv ss (Fin (real (length xs - 1)))))"

text \<open>
  \<^verbatim>\<open>Series.rolling(w)\<close> with the default \<^verbatim>\<open>min_periods = w\<close>: row \<open>i\<close> aggregates
  the trailing \<open>w\<close> cells and is \<open>NaN\<close> unless all \<open>w\<close> of them exist and none is \<open>NaN\<close>.
  The aggregate is computed on each window by its definition, which is what pandas'
  incremental computation amounts to on finite cells.
\<close>

definition rolling :: "nat \<Rightarrow> (series \<Rightarrow> fval) \<Rightarrow> series \<Rightarrow> series" where
  "rolling w agg xs =
     map (\<lambda>i. if i + 1 < w then NaN
              else let win = take w (drop (i + 1 - w) xs)
                   in if list_ex isnan win then NaN else agg win)
         [0..<length xs]"

text \<open>\<^verbatim>\<open>Series.shift(1)\<close>: every cell moves one row down, row 0 becomes \<open>NaN\<close>.\<close>

definition shift1 :: "series \<Rightarrow> series" where
  "shift1 xs = take (length xs) (NaN # xs)"

text \<open>\<^verbatim>\<open>np.where(s > 0, 1, 0)\<close>\<close>

definition where_positive :: "series \<Rightarrow> series" where
  "where_positive xs = map (\<lambda>x. if fgt x (Fin 0) then Fin 1 else Fin 0) xs"

section \<open>Data frames\<close>

text \<open>
  A DataFrame is its index (timestamps) and its columns in order, each a Series of the
  index's length. Reading a column that is absent raises \<^verbatim>\<open>KeyError\<close>; assigning a
  column replaces one of that name in place or appends a new one.
\<close>

datatype error = KeyError string | ZeroDivisionError | ValueError

record dataframe =
  index :: "nat list"
  columns :: "(string \<times> series) list"

definition getcol :: "dataframe \<Rightarrow> string \<Rightarrow> error + series" where
  "getcol df c = (case map_of (columns df) c of None \<Rightarrow> Inl (KeyError c) | Some s \<Rightarrow> Inr s)"

definition setcol :: "dataframe \<Rightarrow> string \<Rightarrow> series \<Rightarrow> dataframe" where
  "setcol df c s = df\<lparr>columns := AList.update c s (columns df)\<rparr>"

definition bindE :: "error + 'a \<Rightarrow> ('a \<Rightarrow> error + 'b) \<Rightarrow> error + 'b" where
  "bindE m f = (case m of Inl e \<Rightarrow> Inl e | Inr x \<Rightarrow> f x)"

definition column_names :: "dataframe \<Rightarrow> string list" where
  "column_names df = map fst (columns df)"

definition nrows :: "dataframe \<Rightarrow> nat" where
  "nrows df = length (index df)"

section \<open>Strategy overlay\<close>

text \<open>
  \<^verbatim>\<open>
  def momentum_strategy(df, lookback):
      d = df.copy()
      d['Momentum'] = d['Returns'].rolling(lookback).mean()
      d['Signal'] = np.where(d['Momentum'] > 0, 1, 0)
      d['Strategy_Return'] = d['Signal'].shift(1) * d['Returns']
      return d
  \<close>
  \<^verbatim>\<open>rolling\<close> raises \<^verbatim>\<open>ValueError\<close> on a negative window.
\<close>

definition momentum_strategy :: "dataframe \<Rightarrow> int \<Rightarrow> error + dataframe" where
  "momentum_strategy df lookback =
     bindE (getcol df ''Returns'') (\<lambda>returns.
       if lookback < 0 then Inl ValueError
       else
         let d1 = setcol df ''Momentum'' (rolling (nat lookback) fmean returns)
         in bindE (getcol d1 ''Momentum'') (\<lambda>momentum.
              let d2 = setcol d1 ''Signal'' (where_positive momentum)
              in bindE (getcol d2 ''Signal'') (\<lambda>signal.
                   bindE (getcol d2 ''Returns'') (\<lambda>returns2.
                     Inr (setcol d2 ''Strategy_Return''
                            (map2 fmul (shift1 signal) returns2))))))"

section \<open>Returns transformer\<close>

text \<open>
  \<^verbatim>\<open>Series.pct_change()\<close> is \<^verbatim>\<open>s / s.shift(1) - 1\<close>. (Older pandas versions first
  fill \<open>NaN\<close> cells forward; on a series without \<open>NaN\<close>, which is what the loader
  delivers, that changes nothing.)
\<close>

definition pct_change :: "series \<Rightarrow> series" where
  "pct_change xs = map2 (\<lambda>x p. fsub (fdiv x p) (Fin 1)) xs (shift1 xs)"

text \<open>
  \<^verbatim>\<open>Series.cumprod()\<close> and \<^verbatim>\<open>Series.cummax()\<close> skip \<open>NaN\<close> cells: such a cell stays
  \<open>NaN\<close> in the result and does not enter the running value.
\<close>

fun cumprod_from :: "fval \<Rightarrow> series \<Rightarrow> series" where
  "cumprod_from acc [] = []"
| "cumprod_from acc (x # xs) =
     (if isnan x then NaN # cumprod_from acc xs
      else fmul acc x # cumprod_from (fmul acc x) xs)"

definition cumprod :: "series \<Rightarrow> series" where
  "cumprod xs = cumprod_from (Fin 1) xs"

definition fmax :: "fval \<Rightarrow> fval \<Rightarrow> fval" where
  "fmax a b = (if fless a b then b else a)"

definition fmin :: "fval \<Rightarrow> fval \<Rightarrow> fval" where
  "fmin a b = (if fless b a then b else a)"

fun cummax_from :: "fval \<Rightarrow> series \<Rightarrow> series" where
  "cummax_from acc [] = []"
| "cummax_from acc (x # xs) =
     (if isnan x then NaN # cummax_from acc xs
      else fmax acc x # cummax_from (fmax acc x) xs)"

definition cummax :: "series \<Rightarrow> series" where
  "cummax xs = cummax_from NInf xs"

text \<open>
  \<^verbatim>\<open>DataFrame.dropna()\<close> keeps, in order, the rows in which no column is \<open>NaN\<close>
  (infinite cells are kept). Every column of a frame has the index's length.
\<close>

definition wf_frame :: "dataframe \<Rightarrow> bool" where
  "wf_frame df = list_all (\<lambda>(c, s). length s = nrows df) (columns df)"

definition complete_row :: "dataframe \<Rightarrow> nat \<Rightarrow> bool" where
  "complete_row df i = list_all (\<lambda>(c, s). \<not> isnan (s ! i)) (columns df)"

definition kept_rows :: "dataframe \<Rightarrow> nat list" where
  "kept_rows df = filter (complete_row df) [0..<nrows df]"

definition dropna :: "dataframe \<Rightarrow> dataframe" where
  "dropna df =
     \<lparr>index = map (nth (index df)) (kept_rows df),
      columns = map (\<lambda>(c, s). (c, map (nth s) (kept_rows df))) (columns df)\<rparr>"

definition annualize :: "series \<Rightarrow> series" where
  "annualize xs = map (\<lambda>v. fmul v (Fin (sqrt 252))) xs"

text \<open>
  \<^verbatim>\<open>
  def calculate_returns(data):
      df = data.copy()
      df['Returns'] = df['Price'].pct_change()
      df['Rate_Change'] = df['Rate'].pct_change()
      df['Vol_21D'] = df['Returns'].rolling(21).std() * np.sqrt(252)
      df['Vol_63D'] = df['Returns'].rolling(63).std() * np.sqrt(252)
      df['Cumulative'] = (1 + df['Returns']).cumprod()
      df['Peak'] = df['Cumulative'].cummax()
      df['Drawdown'] = (df['Cumulative'] - df['Peak']) / df['Peak']
      return df.dropna()
  \<close>
  \<open>derive_columns\<close> is the local \<^verbatim>\<open>df\<close> when the \<^verbatim>\<open>return\<close> statement is reached.
\<close>

definition derive_columns :: "dataframe \<Rightarrow> error + dataframe" where
  "derive_columns data =
     bindE (getcol data ''Price'') (\<lambda>price.
       let df1 = setcol data ''Returns'' (pct_change price)
       in bindE (getcol df1 ''Rate'') (\<lambda>rate.
       let df2 = setcol df1 ''Rate_Change'' (pct_change rate)
       in bindE (getcol df2 ''Returns'') (\<lambda>r21.
       let df3 = setcol df2 ''Vol_21D'' (annualize (rolling 21 fstd r21))
       in bindE (getcol df3 ''Returns'') (\<lambda>r63.
       let df4 = setcol df3 ''Vol_63D'' (annualize (rolling 63 fstd r63))
       in bindE (getcol df4 ''Returns'') (\<lambda>r.
       let df5 = setcol df4 ''Cumulative'' (cumprod (map (fadd (Fin 1)) r))
       in bindE (getcol df5 ''Cumulative'') (\<lambda>cum.
       let df6 = setcol df5 ''Peak'' (cummax cum)
       in bindE (getcol df6 ''Cumulative'') (\<lambda>cum'.
          bindE (getcol df6 ''Peak'') (\<lambda>peak.
          bindE (getcol df6 ''Peak'') (\<lambda>peak'.
            Inr (setcol df6 ''Drawdown'' (map2 fdiv (map2 fsub cum' peak) peak')))))))))))"

definition calculate_returns :: "dataframe \<Rightarrow> error + dataframe" where
  "calculate_returns data = bindE (derive_columns data) (\<lambda>df. Inr (dropna df))"

text \<open>
  \<^verbatim>\<open>load_data\<close> returns the merge of the two downloads: a frame with the two columns
  Price and Rate on the shared dates. (The download itself is outside the model.)
\<close>

definition loaded :: "nat list \<Rightarrow> series \<Rightarrow> series \<Rightarrow> dataframe" where
  "loaded idx price rate = \<lparr>index = idx, columns = [(''Price'', price), (''Rate'', rate)]\<rparr>"

text \<open>
  Names for the columns that \<open>derive_columns\<close> assigns, as functions of the Price column,
  and for the frame it builds.
\<close>

definition cumulative_col :: "series \<Rightarrow> series" where
  "cumulative_col price = cumprod (map (fadd (Fin 1)) (pct_change price))"

definition peak_col :: "series \<Rightarrow> series" where
  "peak_col price = cummax (cumulative_col price)"

definition drawdown_col :: "series \<Rightarrow> series" where
  "drawdown_col price =
     map2 fdiv (map2 fsub (cumulative_col price) (peak_col price)) (peak_col price)"

definition vol_col :: "nat \<Rightarrow> series \<Rightarrow> series" where
  "vol_col w price = annualize (rolling w fstd (pct_change price))"

definition derived_frame :: "dataframe \<Rightarrow> series \<Rightarrow> series \<Rightarrow> dataframe" where
  "derived_frame data price rate =
     setcol (setcol (setcol (setcol (setcol (setcol (setcol data
       ''Returns'' (pct_change price))
       ''Rate_Change'' (pct_change rate))
       ''Vol_21D'' (vol_col 21 price))
       ''Vol_63D'' (vol_col 63 price))
       ''Cumulative'' (cumulative_col price))
       ''Peak'' (peak_col price))
       ''Drawdown'' (drawdown_col price)"


text \<open>A column of a call's result, as in \<^verbatim>\<open>calculate_returns(data)['Cumulative']\<close>.\<close>

definition result_column :: "error + dataframe \<Rightarrow> string \<Rightarrow> error + series" where
  "result_column r c = bindE r (\<lambda>d. getcol d c)"

section \<open>Metrics engine\<close>

text \<open>
  \<^verbatim>\<open>x ** y\<close> on a float64 \<open>x\<close> with the positive exponent \<open>y = 252 / n\<close>: a negative
  base gives \<open>NaN\<close> unless the exponent is a whole number.
\<close>

fun fpow :: "fval \<Rightarrow> real \<Rightarrow> fval" where
  "fpow (Fin x) y =
     (if 0 \<le> x then Fin (x powr y)
      else if y = of_int \<lfloor>y\<rfloor> then Fin (x ^ nat \<lfloor>y\<rfloor>)
      else NaN)"
| "fpow PInf y = PInf"
| "fpow NInf y = (if y = of_int \<lfloor>y\<rfloor> \<and> odd \<lfloor>y\<rfloor> then NInf else PInf)"
| "fpow NaN y = NaN"

text \<open>\<^verbatim>\<open>Series.min()\<close> skips \<open>NaN\<close> cells and is \<open>NaN\<close> when nothing is left.\<close>

definition series_min :: "series \<Rightarrow> fval" where
  "series_min xs = (case dropna_series xs of [] \<Rightarrow> NaN | y # ys \<Rightarrow> foldl fmin y ys)"

record performance_summary =
  cagr :: fval
  vol :: fval
  sharpe :: fval
  sortino :: fval
  max_dd :: fval
  win_rate :: fval

text \<open>
  \<^verbatim>\<open>
  def performance_metrics(returns):
      returns = returns.dropna()
      cagr = (1 + returns).prod() ** (252 / len(returns)) - 1
      vol = returns.std() * np.sqrt(252)
      sharpe = (returns.mean() / returns.std()) * np.sqrt(252)
      downside = returns[returns < 0].std() * np.sqrt(252)
      sortino = (returns.mean() * 252) / downside if downside > 0 else 0
      max_dd = ((1 + returns).cumprod() / (1 + returns).cumprod().cummax() - 1).min()
      win_rate = (returns > 0).mean()
      return cagr, vol, sharpe, sortino, max_dd, win_rate
  \<close>
  \<^verbatim>\<open>252 / len(returns)\<close> divides two Python integers, which raises
  \<^verbatim>\<open>ZeroDivisionError\<close> when the length is 0; the float divisions below it do not raise.
\<close>

definition performance_metrics :: "series \<Rightarrow> error + performance_summary" where
  "performance_metrics returns0 =
     (let returns = dropna_series returns0;
          growth = fprod (map (fadd (Fin 1)) returns)
      in if length returns = 0 then Inl ZeroDivisionError
         else
           let cagr' = fsub (fpow growth (252 / real (length returns))) (Fin 1);
               vol' = fmul (fstd returns) (Fin (sqrt 252));
               sharpe' = fmul (fdiv (fmean returns) (fstd returns)) (Fin (sqrt 252));
               downside = fmul (fstd (filter (\<lambda>r. fless r (Fin 0)) returns)) (Fin (sqrt 252));
               sortino' = (if fgt downside (Fin 0)
                           then fdiv (fmul (fmean returns) (Fin 252)) downside
                           else Fin 0);
               curve = cumprod (map (fadd (Fin 1)) returns);
               max_dd' = series_min
                           (map (\<lambda>v. fsub v (Fin 1)) (map2 fdiv curve (cummax curve)));
               win_rate' = fmean (where_positive returns)
           in Inr \<lparr>cagr = cagr', vol = vol', sharpe = sharpe', sortino = sortino',
                   max_dd = max_dd', win_rate = win_rate'\<rparr>)"

section \<open>Risk engine\<close>

text \<open>
  The rolling quantile sorts the window and interpolates linearly between the two order
  statistics around position \<open>q * (n - 1)\<close>.
\<close>

fun insort_val :: "fval \<Rightarrow> series \<Rightarrow> series" where
  "insort_val x [] = [x]"
| "insort_val x (y # ys) = (if fless y x then y # insort_val x ys else x # y # ys)"

definition sort_vals :: "series \<Rightarrow> series" where
  "sort_vals xs = foldr insort_val xs []"

definition window_quantile :: "real \<Rightarrow> series \<Rightarrow> fval" where
  "window_quantile q win =
     (let s = sort_vals win; n = length win
      in if n = 0 then NaN
         else if n = 1 then s ! 0
         else
           let h = q * real (n - 1); idx = nat \<lfloor>h\<rfloor>
           in if h = real idx then s ! idx
              else fadd (s ! idx) (fmul (fsub (s ! (idx + 1)) (s ! idx)) (Fin (h - real idx))))"

text \<open>
  \<^verbatim>\<open>
  def rolling_var(returns, window, confidence):
      return returns.rolling(window).quantile(1 - confidence)
  \<close>
  A negative window and a quantile outside \<open>[0, 1]\<close> raise \<^verbatim>\<open>ValueError\<close>.
\<close>

definition rolling_var :: "series \<Rightarrow> int \<Rightarrow> real \<Rightarrow> error + series" where
  "rolling_var returns window confidence =
     (if window < 0 then Inl ValueError
      else if \<not> (0 \<le> 1 - confidence \<and> 1 - confidence \<le> 1) then Inl ValueError
      else Inr (rolling (nat window) (window_quantile (1 - confidence)) returns))"

text \<open>
  \<^verbatim>\<open>
  def monte_carlo(mu, sigma, sims):
      np.random.seed(42)
      sims_data = np.random.normal(mu, sigma * 3, (sims, 252))
      return 100 * np.cumprod(1 + sims_data, axis=1)
  \<close>
  numpy's global generator is a state \<open>'g\<close> that the function receives and returns. The
  generator itself is numpy's, so it is a parameter: \<open>seed\<close> makes the state of a seed,
  \<open>normal\<close> draws a matrix of the given shape (or raises) and advances the state.
  \<^verbatim>\<open>np.cumprod\<close> is the plain running product, in which \<open>NaN\<close> propagates.
\<close>

record 'g numpy_random =
  seed :: "nat \<Rightarrow> 'g"
  normal :: "'g \<Rightarrow> fval \<Rightarrow> fval \<Rightarrow> int \<times> int \<Rightarrow> (error + fval list list) \<times> 'g"

fun np_cumprod_from :: "fval \<Rightarrow> series \<Rightarrow> series" where
  "np_cumprod_from acc [] = []"
| "np_cumprod_from acc (x # xs) = fmul acc x # np_cumprod_from (fmul acc x) xs"

definition np_cumprod :: "series \<Rightarrow> series" where
  "np_cumprod xs = np_cumprod_from (Fin 1) xs"

definition monte_carlo ::
  "'g numpy_random \<Rightarrow> fval \<Rightarrow> fval \<Rightarrow> int \<Rightarrow> 'g \<Rightarrow> (error + fval list list) \<times> 'g" where
  "monte_carlo np mu sigma sims g =
     (let g1 = seed np 42;
          (sims_data, g2) = normal np g1 mu (fmul sigma (Fin 3)) (sims, 252)
      in (case sims_data of
            Inl e \<Rightarrow> Inl e
          | Inr rows \<Rightarrow>
              Inr (map (\<lambda>row. map (fmul (Fin 100)) (np_cumprod (map (fadd (Fin 1)) row))) rows),
          g2))"

text \<open>
  The same interpolation on a sorted list of finite cells, at position \<open>h\<close>; the proofs
  relate \<open>window_quantile\<close> on finite windows to it.
\<close>

definition interp :: "real list \<Rightarrow> real \<Rightarrow> real" where
  "interp s h =
     (let k = nat \<lfloor>h\<rfloor>
      in if h = real k then s ! k else s ! k + (s ! (k + 1) - s ! k) * (h - real k))"

section \<open>Example tables\<close>

text \<open>
  A three-row table with the nine columns of the returns transformer's output, and the
  table the overlay makes of it with a lookback of 2.
\<close>

definition example_table :: dataframe where
  "example_table =
     \<lparr>index = [63, 64, 65],
      columns =
        [(''Price'', [Fin 200, Fin 198, Fin 206]),
         (''Rate'', [Fin 4, Fin 4, Fin 5]),
         (''Returns'', [Fin (1/50), Fin (-1/100), Fin (1/25)]),
         (''Rate_Change'', [Fin 0, Fin 0, Fin (1/4)]),
         (''Vol_21D'', [Fin (1/10), Fin (1/10), Fin (1/8)]),
         (''Vol_63D'', [Fin (1/5), Fin (1/5), Fin (1/5)]),
         (''Cumulative'', [Fin 2, Fin (99/50), Fin (103/50)]),
         (''Peak'', [Fin 2, Fin 2, Fin (103/50)]),
         (''Drawdown'', [Fin 0, Fin (-1/100), Fin 0])]\<rparr>"

definition example_overlay :: dataframe where
  "example_overlay =
     \<lparr>index = [63, 64, 65],
      columns =
        [(''Price'', [Fin 200, Fin 198, Fin 206]),
         (''Rate'', [Fin 4, Fin 4, Fin 5]),
         (''Returns'', [Fin (1/50), Fin (-1/100), Fin (1/25)]),
         (''Rate_Change'', [Fin 0, Fin 0, Fin (1/4)]),
         (''Vol_21D'', [Fin (1/10), Fin (1/10), Fin (1/8)]),
         (''Vol_63D'', [Fin (1/5), Fin (1/5), Fin (1/5)]),
         (''Cumulative'', [Fin 2, Fin (99/50), Fin (103/50)]),
         (''Peak'', [Fin 2, Fin 2, Fin (103/50)]),
         (''Drawdown'', [Fin 0, Fin (-1/100), Fin 0]),
         (''Momentum'', [NaN, Fin (1/200), Fin (3/200)]),
         (''Signal'', [Fin 0, Fin 1, Fin 1]),
         (''Strategy_Return'', [NaN, Fin 0, Fin (1/25)])]\<rparr>"

text \<open>
  The specification's example prices, and two tables of 64 days: prices 100, then 110,
  then 62 days at 99; and the values 100, then -50, then 62 days at -100, which are not
  prices of an index but are floats the function accepts. \<open>dip_table\<close> is what the returns
  transformer makes of the first.
\<close>

definition example_prices :: dataframe where
  "example_prices =
     loaded [0, 1, 2, 3] (map Fin [100, 102, 101, 105]) (map Fin [4, 4, 4, 4])"

definition dip_price_values :: "real list" where
  "dip_price_values = 100 # 110 # replicate 62 99"

definition dip_rate_values :: "real list" where
  "dip_rate_values = replicate 64 4"

definition dip_prices :: dataframe where
  "dip_prices = loaded [0..<64] (map Fin dip_price_values) (map Fin dip_rate_values)"

definition negative_price_values :: "real list" where
  "negative_price_values = 100 # (- 50) # replicate 62 (- 100)"

definition negative_prices :: dataframe where
  "negative_prices = loaded [0..<64] (map Fin negative_price_values) (map Fin dip_rate_values)"

definition dip_table :: dataframe where
  "dip_table =
     dropna (derived_frame dip_prices (map Fin dip_price_values) (map Fin dip_rate_values))"


section \<open>Columns of a frame\<close>

lemma getcol_setcol_same: "getcol (setcol df c s) c = Inr s"
  by (simp add: getcol_def setcol_def update_conv')

lemma getcol_setcol_other: "c' \<noteq> c \<Longrightarrow> getcol (setcol df c s) c' = getcol df c'"
  by (simp add: getcol_def setcol_def update_conv')

lemma index_setcol: "index (setcol df c s) = index df"
  by (simp add: setcol_def)

lemma update_fresh: "k \<notin> fst ` set al \<Longrightarrow> AList.update k v al = al @ [(k, v)]"
  by (induction al) auto

lemma columns_setcol_fresh:
  "c \<notin> set (column_names df) \<Longrightarrow> columns (setcol df c s) = columns df @ [(c, s)]"
  by (simp add: setcol_def column_names_def update_fresh)

lemma column_names_setcol_fresh:
  "c \<notin> set (column_names df) \<Longrightarrow> column_names (setcol df c s) = column_names df @ [c]"
  by (simp add: columns_setcol_fresh column_names_def)

lemma length_rolling: "length (rolling w agg xs) = length xs"
  by (simp add: rolling_def)

lemma length_where_positive: "length (where_positive xs) = length xs"
  by (simp add: where_positive_def)

lemma length_shift1: "length (shift1 xs) = length xs"
  by (simp add: shift1_def)

lemma shift1_nth: "0 < i \<Longrightarrow> i < length xs \<Longrightarrow> shift1 xs ! i = xs ! (i - 1)"
  by (cases i) (auto simp: shift1_def)

lemma shift1_0: "xs \<noteq> [] \<Longrightarrow> shift1 xs ! 0 = NaN"
  by (cases xs) (auto simp: shift1_def)

section \<open>The overlay's result\<close>

text \<open>When the overlay returns, its table is the input with three columns assigned in turn.\<close>

lemma momentum_strategy_Inr:
  assumes "momentum_strategy df lookback = Inr d"
  obtains rs where "getcol df ''Returns'' = Inr rs" and "0 \<le> lookback"
    and "d = setcol (setcol (setcol df ''Momentum'' (rolling (nat lookback) fmean rs))
                   ''Signal'' (where_positive (rolling (nat lookback) fmean rs)))
            ''Strategy_Return''
            (map2 fmul (shift1 (where_positive (rolling (nat lookback) fmean rs))) rs)"
  using assms
  by (auto simp: momentum_strategy_def bindE_def Let_def getcol_setcol_same getcol_setcol_other
      split: sum.splits if_splits)

lemma example_overlay_eq: "momentum_strategy example_table 2 = Inr example_overlay"
  by (simp add: momentum_strategy_def example_table_def example_overlay_def bindE_def getcol_def
      setcol_def rolling_def fmean_def fsum_def where_positive_def fgt_def shift1_def Let_def
      upt_rec)

text \<open>
  C1. For every row \<open>i > 0\<close> of the overlay's table, the strategy return at row \<open>i\<close> is the
  position (Signal) of row \<open>i - 1\<close> times the return of row \<open>i\<close>: the position of row \<open>i\<close>
  itself does not enter it.
\<close>

theorem strategy_return_lagged:
  assumes "momentum_strategy df lookback = Inr d"
    and "getcol d ''Strategy_Return'' = Inr sr"
    and "getcol d ''Signal'' = Inr sg"
    and "getcol d ''Returns'' = Inr rs"
    and "0 < i" and "i < length rs"
  shows "sr ! i = fmul (sg ! (i - 1)) (rs ! i)"
proof -
  from assms(1) obtain rs0 where r: "getcol df ''Returns'' = Inr rs0"
    and d: "d = setcol (setcol (setcol df ''Momentum'' (rolling (nat lookback) fmean rs0))
                   ''Signal'' (where_positive (rolling (nat lookback) fmean rs0)))
            ''Strategy_Return''
            (map2 fmul (shift1 (where_positive (rolling (nat lookback) fmean rs0))) rs0)"
    by (rule momentum_strategy_Inr)
  have rs: "rs = rs0"
    using assms(4) r by (simp add: d getcol_setcol_other)
  have sg: "sg = where_positive (rolling (nat lookback) fmean rs0)"
    using assms(3) by (simp add: d getcol_setcol_other getcol_setcol_same)
  have sr: "sr = map2 fmul (shift1 sg) rs"
    using assms(2) by (simp add: d getcol_setcol_same sg rs)
  have len: "length sg = length rs"
    by (simp add: sg rs length_where_positive length_rolling)
  show ?thesis
    using assms(5,6) len by (simp add: sr length_shift1 shift1_nth)
qed

theorem strategy_return_lagged_witness:
  "momentum_strategy example_table 2 = Inr example_overlay
   \<and> getcol example_overlay ''Strategy_Return'' = Inr [NaN, Fin 0, Fin (1/25)]
   \<and> getcol example_overlay ''Signal'' = Inr [Fin 0, Fin 1, Fin 1]
   \<and> getcol example_overlay ''Returns'' = Inr [Fin (1/50), Fin (-1/100), Fin (1/25)]
   \<and> [NaN, Fin 0, Fin (1/25)] ! 2
       = fmul ([Fin 0, Fin 1, Fin 1] ! (2 - 1)) ([Fin (1/50), Fin (-1/100), Fin (1/25)] ! 2)"
proof -
  have h2: "getcol example_overlay ''Strategy_Return'' = Inr [NaN, Fin 0, Fin (1/25)]"
    by (simp add: getcol_def example_overlay_def)
  have h3: "getcol example_overlay ''Signal'' = Inr [Fin 0, Fin 1, Fin 1]"
    by (simp add: getcol_def example_overlay_def)
  have h4: "getcol example_overlay ''Returns'' = Inr [Fin (1/50), Fin (-1/100), Fin (1/25)]"
    by (simp add: getcol_def example_overlay_def)
  have h5: "0 < (2::nat)" by simp
  have h6: "2 < length [Fin (1/50), Fin (-1/100), Fin (1/25)]" by simp
  show ?thesis
    using strategy_return_lagged [OF example_overlay_eq h2 h3 h4 h5 h6] example_overlay_eq h2 h3 h4
    by simp
qed

text \<open>
  C9. The overlay preserves its input frame: the returned table has the input's index
  (the same rows), its columns start with the input's columns, cell for cell, every
  column of the input reads the same afterwards, and exactly the three columns Momentum,
  Signal and Strategy_Return are added. (The input, the returns transformer's table, has
  no column of these three names.)
\<close>

theorem momentum_strategy_frame:
  assumes "momentum_strategy df lookback = Inr d"
    and "''Momentum'' \<notin> set (column_names df)"
    and "''Signal'' \<notin> set (column_names df)"
    and "''Strategy_Return'' \<notin> set (column_names df)"
  shows "index d = index df
    \<and> take (length (columns df)) (columns d) = columns df
    \<and> column_names d = column_names df @ [''Momentum'', ''Signal'', ''Strategy_Return'']
    \<and> (\<forall>c \<in> set (column_names df). getcol d c = getcol df c)"
proof -
  from assms(1) obtain rs where
    d: "d = setcol (setcol (setcol df ''Momentum'' (rolling (nat lookback) fmean rs))
                   ''Signal'' (where_positive (rolling (nat lookback) fmean rs)))
            ''Strategy_Return''
            (map2 fmul (shift1 (where_positive (rolling (nat lookback) fmean rs))) rs)"
    by (rule momentum_strategy_Inr)
  let ?m = "rolling (nat lookback) fmean rs"
  let ?d1 = "setcol df ''Momentum'' ?m"
  let ?d2 = "setcol ?d1 ''Signal'' (where_positive ?m)"
  have n1: "column_names ?d1 = column_names df @ [''Momentum'']"
    using assms(2) by (rule column_names_setcol_fresh)
  have c1: "columns ?d1 = columns df @ [(''Momentum'', ?m)]"
    using assms(2) by (rule columns_setcol_fresh)
  have f2: "''Signal'' \<notin> set (column_names ?d1)"
    using assms(3) by (simp add: n1)
  have n2: "column_names ?d2 = column_names ?d1 @ [''Signal'']"
    using f2 by (rule column_names_setcol_fresh)
  have c2: "columns ?d2 = columns ?d1 @ [(''Signal'', where_positive ?m)]"
    using f2 by (rule columns_setcol_fresh)
  have f3: "''Strategy_Return'' \<notin> set (column_names ?d2)"
    using assms(4) by (simp add: n1 n2)
  have c3: "columns d = columns ?d2 @ [(''Strategy_Return'', map2 fmul (shift1 (where_positive ?m)) rs)]"
    unfolding d using f3 by (rule columns_setcol_fresh)
  have cols: "columns d = columns df @ [(''Momentum'', ?m), (''Signal'', where_positive ?m),
      (''Strategy_Return'', map2 fmul (shift1 (where_positive ?m)) rs)]"
    by (simp add: c1 c2 c3)
  have idx: "index d = index df"
    by (simp add: d index_setcol)
  have same: "getcol d c = getcol df c" if "c \<in> set (column_names df)" for c
  proof -
    from that assms(2-4) have "c \<noteq> ''Momentum''" "c \<noteq> ''Signal''" "c \<noteq> ''Strategy_Return''"
      by auto
    then show ?thesis
      by (simp add: d getcol_setcol_other)
  qed
  show ?thesis
    using idx same by (simp add: cols column_names_def)
qed

theorem momentum_strategy_frame_witness:
  "momentum_strategy example_table 2 = Inr example_overlay
   \<and> ''Momentum'' \<notin> set (column_names example_table)
   \<and> ''Signal'' \<notin> set (column_names example_table)
   \<and> ''Strategy_Return'' \<notin> set (column_names example_table)
   \<and> index example_overlay = index example_table
   \<and> take (length (columns example_table)) (columns example_overlay) = columns example_table
   \<and> column_names example_overlay
       = column_names example_table @ [''Momentum'', ''Signal'', ''Strategy_Return'']
   \<and> getcol example_overlay ''Price'' = getcol example_table ''Price''
   \<and> getcol example_overlay ''Rate'' = getcol example_table ''Rate''
   \<and> getcol example_overlay ''Returns'' = getcol example_table ''Returns''
   \<and> getcol example_overlay ''Rate_Change'' = getcol example_table ''Rate_Change''
   \<and> getcol example_overlay ''Vol_21D'' = getcol example_table ''Vol_21D''
   \<and> getcol example_overlay ''Vol_63D'' = getcol example_table ''Vol_63D''
   \<and> getcol example_overlay ''Cumulative'' = getcol example_table ''Cumulative''
   \<and> getcol example_overlay ''Peak'' = getcol example_table ''Peak''
   \<and> getcol example_overlay ''Drawdown'' = getcol example_table ''Drawdown''"
proof -
  have names: "column_names example_table
      = [''Price'', ''Rate'', ''Returns'', ''Rate_Change'', ''Vol_21D'', ''Vol_63D'',
         ''Cumulative'', ''Peak'', ''Drawdown'']"
    by (simp add: column_names_def example_table_def)
  have h2: "''Momentum'' \<notin> set (column_names example_table)"
    by (simp add: names)
  have h3: "''Signal'' \<notin> set (column_names example_table)"
    by (simp add: names)
  have h4: "''Strategy_Return'' \<notin> set (column_names example_table)"
    by (simp add: names)
  have "\<forall>c \<in> set (column_names example_table). getcol example_overlay c = getcol example_table c"
    using momentum_strategy_frame [OF example_overlay_eq h2 h3 h4] by blast
  then have same: "\<forall>c \<in> set [''Price'', ''Rate'', ''Returns'', ''Rate_Change'', ''Vol_21D'',
      ''Vol_63D'', ''Cumulative'', ''Peak'', ''Drawdown'']. getcol example_overlay c = getcol example_table c"
    by (simp only: names)
  show ?thesis
    using momentum_strategy_frame [OF example_overlay_eq h2 h3 h4] example_overlay_eq h2 h3 h4 same
    by simp
qed

text \<open>
  C6, as stated, fails: the overlay returns every input row. On the example table with a
  lookback of 2, row 0 is still there, with Strategy_Return and Momentum \<open>NaN\<close>.
\<close>

theorem overlay_keeps_undefined_rows_counterexample:
  "momentum_strategy example_table 2 = Inr example_overlay
   \<and> index example_overlay = index example_table
   \<and> getcol example_overlay ''Momentum'' = Inr [NaN, Fin (1/200), Fin (3/200)]
   \<and> getcol example_overlay ''Strategy_Return'' = Inr [NaN, Fin 0, Fin (1/25)]"
  using example_overlay_eq by (simp add: getcol_def example_overlay_def example_table_def)

text \<open>A row without a full trailing window is \<open>NaN\<close> in a rolling column.\<close>

lemma rolling_nth_short: "i < length xs \<Longrightarrow> i + 1 < w \<Longrightarrow> rolling w agg xs ! i = NaN"
  by (simp add: rolling_def)

text \<open>
  C6, amended. The overlay drops no row: its table has the input's index; row 0 is
  retained with Strategy_Return \<open>NaN\<close>, and every row before a full lookback window is
  retained with Momentum \<open>NaN\<close> and Signal 0.
\<close>

theorem overlay_retains_rows:
  assumes "momentum_strategy df lookback = Inr d"
    and "getcol df ''Returns'' = Inr rs"
    and "rs \<noteq> []"
  shows "index d = index df
    \<and> (\<exists>mo sg sr. getcol d ''Momentum'' = Inr mo \<and> getcol d ''Signal'' = Inr sg
          \<and> getcol d ''Strategy_Return'' = Inr sr
          \<and> length mo = length rs \<and> length sg = length rs \<and> length sr = length rs
          \<and> sr ! 0 = NaN
          \<and> (\<forall>i < length rs. int i + 1 < lookback \<longrightarrow> mo ! i = NaN \<and> sg ! i = Fin 0))"
proof -
  from assms(1) obtain rs0 where r: "getcol df ''Returns'' = Inr rs0"
    and d: "d = setcol (setcol (setcol df ''Momentum'' (rolling (nat lookback) fmean rs0))
                   ''Signal'' (where_positive (rolling (nat lookback) fmean rs0)))
            ''Strategy_Return''
            (map2 fmul (shift1 (where_positive (rolling (nat lookback) fmean rs0))) rs0)"
    by (rule momentum_strategy_Inr)
  have rs: "rs0 = rs" using r assms(2) by simp
  let ?m = "rolling (nat lookback) fmean rs"
  let ?s = "where_positive ?m"
  let ?r = "map2 fmul (shift1 ?s) rs"
  have g1: "getcol d ''Momentum'' = Inr ?m"
    by (simp add: d rs getcol_setcol_other getcol_setcol_same)
  have g2: "getcol d ''Signal'' = Inr ?s"
    by (simp add: d rs getcol_setcol_other getcol_setcol_same)
  have g3: "getcol d ''Strategy_Return'' = Inr ?r"
    by (simp add: d rs getcol_setcol_same)
  have l: "length ?m = length rs" "length ?s = length rs" "length ?r = length rs"
    by (simp_all add: length_rolling length_where_positive length_shift1)
  have s0: "?s \<noteq> []" using assms(3) l(2) by auto
  have r0: "?r ! 0 = NaN"
    using assms(3) l shift1_0 [OF s0] by (simp add: length_shift1)
  have short: "?m ! i = NaN \<and> ?s ! i = Fin 0" if "i < length rs" "int i + 1 < lookback" for i
  proof -
    have "i + 1 < nat lookback" using that(2) by linarith
    then have m: "?m ! i = NaN" using that(1) by (simp add: rolling_nth_short)
    have "?s ! i = (if fgt (?m ! i) (Fin 0) then Fin 1 else Fin 0)"
      using that(1) l(1) by (simp add: where_positive_def)
    then show ?thesis using m by (simp add: fgt_def)
  qed
  have idx: "index d = index df" by (simp add: d index_setcol)
  show ?thesis
    using idx g1 g2 g3 l r0 short by blast
qed

theorem overlay_retains_rows_witness:
  "momentum_strategy example_table 2 = Inr example_overlay
   \<and> getcol example_table ''Returns'' = Inr [Fin (1/50), Fin (-1/100), Fin (1/25)]
   \<and> [Fin (1/50), Fin (-1/100), Fin (1/25)] \<noteq> []
   \<and> index example_overlay = index example_table
   \<and> (\<exists>mo sg sr. getcol example_overlay ''Momentum'' = Inr mo
          \<and> getcol example_overlay ''Signal'' = Inr sg
          \<and> getcol example_overlay ''Strategy_Return'' = Inr sr
          \<and> length mo = length [Fin (1/50), Fin (-1/100), Fin (1/25)]
          \<and> length sg = length [Fin (1/50), Fin (-1/100), Fin (1/25)]
          \<and> length sr = length [Fin (1/50), Fin (-1/100), Fin (1/25)]
          \<and> sr ! 0 = NaN \<and> mo ! 0 = NaN \<and> sg ! 0 = Fin 0)"
proof -
  have h2: "getcol example_table ''Returns'' = Inr [Fin (1/50), Fin (-1/100), Fin (1/25)]"
    by (simp add: getcol_def example_table_def)
  have h3: "[Fin (1/50), Fin (-1/100), Fin (1/25)] \<noteq> []" by simp
  have row0: "0 < length [Fin (1/50), Fin (-1/100), Fin (1/25)] \<and> int 0 + 1 < 2" by simp
  show ?thesis
    using overlay_retains_rows [OF example_overlay_eq h2 h3] example_overlay_eq h2 h3 row0
    by blast
qed

section \<open>Performance metrics\<close>

text \<open>
  C3, as stated, fails: on the empty return stream the division \<^verbatim>\<open>252 / len(returns)\<close>
  is evaluated and raises.
\<close>

theorem empty_stream_divides_by_zero_counterexample:
  "performance_metrics [] = Inl ZeroDivisionError"
  by (simp add: performance_metrics_def dropna_series_def)

text \<open>
  C3, amended. \<open>performance_metrics\<close> has no guard of its own for an empty stream: it
  raises \<^verbatim>\<open>ZeroDivisionError\<close>, from the division \<^verbatim>\<open>252 / len(returns)\<close>, exactly when no
  observation is left after the \<open>NaN\<close> cells are removed, and returns no metric then.
\<close>

theorem empty_stream_raises:
  "(performance_metrics returns = Inl ZeroDivisionError) = (dropna_series returns = [])"
  by (simp add: performance_metrics_def Let_def)

text \<open>
  C4. The code at the constant zero-return stream: mean and standard deviation are both
  0, and the Sharpe ratio is the unguarded quotient \<open>0 / 0\<close>, that is \<open>NaN\<close>; the Sortino
  ratio beside it is guarded and is 0.
\<close>

theorem sharpe_zero_variance_nan:
  "performance_metrics [Fin 0, Fin 0, Fin 0]
     = Inr \<lparr>cagr = Fin 0, vol = Fin 0, sharpe = NaN, sortino = Fin 0, max_dd = Fin 0,
            win_rate = Fin 0\<rparr>"
  by (simp add: performance_metrics_def dropna_series_def fprod_def fstd_def fmean_def fsum_def
      fsub_def fgt_def cumprod_def cummax_def fmax_def fmin_def series_min_def where_positive_def
      Let_def)

lemma fstd_short: "length xs \<le> 1 \<Longrightarrow> fstd xs = NaN"
  by (simp add: fstd_def)

text \<open>
  C10. On a stream with at least one observation, the Sortino ratio is 0 when there is no
  negative return and also when there is exactly one: the standard deviation of fewer
  than two observations is \<open>NaN\<close>, and \<^verbatim>\<open>downside > 0\<close> is then false.
\<close>

theorem sortino_zero_few_negatives:
  assumes "dropna_series returns \<noteq> []"
    and "length (filter (\<lambda>r. fless r (Fin 0)) (dropna_series returns)) \<le> 1"
  shows "\<exists>m. performance_metrics returns = Inr m \<and> sortino m = Fin 0"
  using assms by (simp add: performance_metrics_def Let_def fstd_short fgt_def)

theorem sortino_zero_few_negatives_witness:
  "dropna_series [Fin (1/100), Fin (-1/50), NaN, Fin (3/100)] \<noteq> []
   \<and> length (filter (\<lambda>r. fless r (Fin 0))
               (dropna_series [Fin (1/100), Fin (-1/50), NaN, Fin (3/100)])) \<le> 1
   \<and> (\<exists>m. performance_metrics [Fin (1/100), Fin (-1/50), NaN, Fin (3/100)] = Inr m
          \<and> sortino m = Fin 0)"
proof -
  have h1: "dropna_series [Fin (1/100), Fin (-1/50), NaN, Fin (3/100)] \<noteq> []"
    by (simp add: dropna_series_def)
  have h2: "length (filter (\<lambda>r. fless r (Fin 0))
              (dropna_series [Fin (1/100), Fin (-1/50), NaN, Fin (3/100)])) \<le> 1"
    by (simp add: dropna_series_def)
  show ?thesis
    using sortino_zero_few_negatives [OF h1 h2] h1 h2 by blast
qed

section \<open>Monte Carlo\<close>

text \<open>
  C8. Two invocations with the same mean, volatility and path count produce the same
  path matrix, whatever state the global generator is in at each call: the function
  reseeds it with 42 before drawing.
\<close>

theorem monte_carlo_deterministic:
  "monte_carlo np mu sigma sims g = monte_carlo np mu sigma sims g'"
  by (simp add: monte_carlo_def)

section \<open>Rolling quantile\<close>

lemma insort_val_Fin: "insort_val (Fin x) (map Fin ys) = map Fin (insort x ys)"
  by (induction ys) auto

lemma sort_vals_Fin: "sort_vals (map Fin xs) = map Fin (sort xs)"
  by (induction xs) (simp_all add: sort_vals_def insort_val_Fin)

lemma finite_vals_map: "list_all finite_val xs \<Longrightarrow> xs = map Fin (map value_of xs)"
proof (induction xs)
  case Nil
  then show ?case by simp
next
  case (Cons x xs)
  then show ?case by (cases x) simp_all
qed

lemma floor_pos_bounds:
  fixes h :: real
  assumes "0 \<le> h"
  shows "real (nat \<lfloor>h\<rfloor>) \<le> h" and "h < real (nat \<lfloor>h\<rfloor>) + 1"
  using assms by linarith+

lemma interp_linear:
  "interp s h = s ! nat \<lfloor>h\<rfloor> + (s ! (nat \<lfloor>h\<rfloor> + 1) - s ! nat \<lfloor>h\<rfloor>) * (h - real (nat \<lfloor>h\<rfloor>))"
  by (simp add: interp_def Let_def)

lemma interp_bounds:
  assumes "sorted s" and "0 \<le> h" and "h \<le> real (length s - 1)" and "s \<noteq> []"
  shows "s ! nat \<lfloor>h\<rfloor> \<le> interp s h"
    and "nat \<lfloor>h\<rfloor> + 1 < length s \<Longrightarrow> interp s h \<le> s ! (nat \<lfloor>h\<rfloor> + 1)"
proof -
  let ?k = "nat \<lfloor>h\<rfloor>"
  have f: "0 \<le> h - real ?k" "h - real ?k < 1"
    using floor_pos_bounds [OF assms(2)] by linarith+
  show "s ! ?k \<le> interp s h"
  proof (cases "h = real ?k")
    case True
    then show ?thesis by (simp add: interp_def Let_def)
  next
    case False
    then have "real ?k < h" using f by linarith
    then have "real ?k < real (length s - 1)" using assms(3) by linarith
    then have "?k + 1 < length s" by linarith
    then have "s ! ?k \<le> s ! (?k + 1)"
      using assms(1) by (simp add: sorted_nth_mono)
    then have "0 \<le> (s ! (?k + 1) - s ! ?k) * (h - real ?k)"
      using f by simp
    then show ?thesis by (simp add: interp_linear)
  qed
  show "interp s h \<le> s ! (?k + 1)" if "?k + 1 < length s"
  proof -
    have d: "0 \<le> s ! (?k + 1) - s ! ?k"
      using assms(1) that by (simp add: sorted_nth_mono)
    have "(s ! (?k + 1) - s ! ?k) * (h - real ?k) \<le> (s ! (?k + 1) - s ! ?k) * 1"
      using d f by (intro mult_left_mono) linarith+
    then show ?thesis by (simp add: interp_linear)
  qed
qed

lemma interp_mono:
  assumes "sorted s" and "0 \<le> h1" and "h1 \<le> h2" and "h2 \<le> real (length s - 1)" and "s \<noteq> []"
  shows "interp s h1 \<le> interp s h2"
proof -
  let ?k1 = "nat \<lfloor>h1\<rfloor>" and ?k2 = "nat \<lfloor>h2\<rfloor>"
  have h2: "0 \<le> h2" using assms(2,3) by linarith
  have h1': "h1 \<le> real (length s - 1)" using assms(3,4) by linarith
  have k: "?k1 \<le> ?k2" using assms(3) by (simp add: floor_mono nat_mono)
  have k2: "?k2 < length s"
  proof -
    have "real ?k2 \<le> real (length s - 1)" using floor_pos_bounds(1) [OF h2] assms(4) by linarith
    then have "?k2 \<le> length s - 1" by linarith
    then show ?thesis using assms(5) by (cases s) auto
  qed
  show ?thesis
  proof (cases "?k1 = ?k2")
    case True
    show ?thesis
    proof (cases "h1 = h2")
      case True
      then show ?thesis by simp
    next
      case False
      then have lt: "h1 < h2" using assms(3) by simp
      have "real ?k2 < h2" using floor_pos_bounds(1) [OF assms(2)] True lt by linarith
      then have "real ?k2 < real (length s - 1)" using assms(4) by linarith
      then have "?k2 + 1 < length s" by linarith
      then have d: "0 \<le> s ! (?k2 + 1) - s ! ?k2"
        using assms(1) by (simp add: sorted_nth_mono)
      have "(s ! (?k2 + 1) - s ! ?k2) * (h1 - real ?k2) \<le> (s ! (?k2 + 1) - s ! ?k2) * (h2 - real ?k2)"
        using d lt by (intro mult_left_mono) linarith+
      then show ?thesis
        using True by (simp add: interp_linear [of s h1] interp_linear [of s h2])
    qed
  next
    case False
    then have lt: "?k1 + 1 \<le> ?k2" using k by linarith
    then have in1: "?k1 + 1 < length s" using k2 by linarith
    have "interp s h1 \<le> s ! (?k1 + 1)"
      using interp_bounds(2) [OF assms(1,2) h1' assms(5)] in1 by simp
    also have "\<dots> \<le> s ! ?k2"
      using assms(1) lt k2 by (simp add: sorted_nth_mono)
    also have "\<dots> \<le> interp s h2"
      using interp_bounds(1) [OF assms(1) h2 assms(4,5)] .
    finally show ?thesis .
  qed
qed

lemma window_quantile_Fin:
  assumes "0 \<le> q" and "q \<le> 1" and "xs \<noteq> []"
  shows "window_quantile q (map Fin xs) = Fin (interp (sort xs) (q * real (length xs - 1)))"
proof -
  define n where "n = length xs"
  define h where "h = q * real (n - 1)"
  define k where "k = nat \<lfloor>h\<rfloor>"
  define s where "s = sort xs"
  have ls: "length s = n" by (simp add: s_def n_def)
  have n0: "n \<noteq> 0" using assms(3) by (simp add: n_def)
  have h0: "0 \<le> h" using assms(1) by (simp add: h_def)
  have "h \<le> 1 * real (n - 1)"
    unfolding h_def using assms(2) by (intro mult_right_mono) simp_all
  then have hn: "h \<le> real (n - 1)" by simp
  have kn: "k < n"
  proof -
    have "real k \<le> real (n - 1)" unfolding k_def using floor_pos_bounds(1) [OF h0] hn by linarith
    then have "k \<le> n - 1" by linarith
    then show ?thesis using n0 by linarith
  qed
  have k1: "k + 1 < n" if "h \<noteq> real k"
  proof -
    have "real k < h" using floor_pos_bounds(1) [OF h0] that unfolding k_def by linarith
    then have "real k < real (n - 1)" using hn by linarith
    then show ?thesis by linarith
  qed
  have nk: "map Fin s ! k = Fin (s ! k)" using kn ls by simp
  have nk1: "map Fin s ! (k + 1) = Fin (s ! (k + 1))" if "h \<noteq> real k"
    using k1 [OF that] ls by simp
  have wq: "window_quantile q (map Fin xs) =
      (if n = 1 then map Fin s ! 0
       else if h = real k then map Fin s ! k
       else fadd (map Fin s ! k) (fmul (fsub (map Fin s ! (k + 1)) (map Fin s ! k)) (Fin (h - real k))))"
    using n0 unfolding k_def h_def s_def n_def
    by (simp only: window_quantile_def sort_vals_Fin Let_def length_map if_False)
  have ip: "interp s h = (if h = real k then s ! k else s ! k + (s ! (k + 1) - s ! k) * (h - real k))"
    by (simp only: interp_def Let_def k_def)
  have "window_quantile q (map Fin xs) = Fin (interp s h)"
  proof (cases "n = 1")
    case True
    then have "h = 0" by (simp add: h_def)
    then have "k = 0" by (simp add: k_def)
    show ?thesis
      unfolding wq ip using True \<open>h = 0\<close> \<open>k = 0\<close> nk by simp
  next
    case False
    show ?thesis
    proof (cases "h = real k")
      case True
      then show ?thesis unfolding wq ip using False nk by simp
    next
      case neq: False
      show ?thesis
        unfolding wq ip using False neq nk nk1 [OF neq] by (simp add: fsub_def)
    qed
  qed
  then show ?thesis by (simp only: s_def h_def n_def)
qed

lemma rolling_nth_full:
  assumes "i < length xs" and "w \<le> i + 1"
    and "\<not> list_ex isnan (take w (drop (i + 1 - w) xs))"
  shows "rolling w agg xs ! i = agg (take w (drop (i + 1 - w) xs))"
  using assms by (simp add: rolling_def Let_def)

lemma finite_not_nan: "list_all finite_val xs \<Longrightarrow> \<not> list_ex isnan xs"
proof (induction xs)
  case Nil
  then show ?case by simp
next
  case (Cons x xs)
  then show ?case by (cases x) simp_all
qed

text \<open>
  C7. For a fixed return stream and window, at every row with a full trailing window (the
  window's cells all exist and are finite numbers), the rolling VaR at a higher confidence
  level is at most the rolling VaR at a lower one.
\<close>

theorem rolling_var_monotone:
  assumes "rolling_var returns window c1 = Inr v1"
    and "rolling_var returns window c2 = Inr v2"
    and "c1 < c2"
    and "i < length returns" and "0 < window" and "nat window \<le> i + 1"
    and "list_all finite_val (take (nat window) (drop (i + 1 - nat window) returns))"
  shows "\<exists>a b. v1 ! i = Fin a \<and> v2 ! i = Fin b \<and> b \<le> a"
proof -
  let ?w = "nat window"
  let ?win = "take ?w (drop (i + 1 - ?w) returns)"
  let ?xs = "map value_of ?win"
  have q1: "0 \<le> 1 - c1" "1 - c1 \<le> 1"
    and v1: "v1 = rolling ?w (window_quantile (1 - c1)) returns"
    using assms(1) by (auto simp: rolling_var_def split: if_splits)
  have q2: "0 \<le> 1 - c2" "1 - c2 \<le> 1"
    and v2: "v2 = rolling ?w (window_quantile (1 - c2)) returns"
    using assms(2) by (auto simp: rolling_var_def split: if_splits)
  have win: "?win = map Fin ?xs"
    using assms(7) by (rule finite_vals_map)
  have nonan: "\<not> list_ex isnan ?win"
    using assms(7) by (rule finite_not_nan)
  have len: "length ?win = ?w"
    using assms(4,6) by simp
  have ne: "?xs \<noteq> []"
    using len assms(5) by auto
  have e1: "v1 ! i = Fin (interp (sort ?xs) ((1 - c1) * real (length ?xs - 1)))"
    unfolding v1 rolling_nth_full [OF assms(4,6) nonan]
    using window_quantile_Fin [OF q1 ne] win by simp
  have e2: "v2 ! i = Fin (interp (sort ?xs) ((1 - c2) * real (length ?xs - 1)))"
    unfolding v2 rolling_nth_full [OF assms(4,6) nonan]
    using window_quantile_Fin [OF q2 ne] win by simp
  have "interp (sort ?xs) ((1 - c2) * real (length ?xs - 1))
      \<le> interp (sort ?xs) ((1 - c1) * real (length ?xs - 1))"
  proof (rule interp_mono)
    show "sorted (sort ?xs)" by simp
    show "0 \<le> (1 - c2) * real (length ?xs - 1)" using q2 by simp
    show "(1 - c2) * real (length ?xs - 1) \<le> (1 - c1) * real (length ?xs - 1)"
      using assms(3) by (intro mult_right_mono) simp_all
    have "(1 - c1) * real (length ?xs - 1) \<le> 1 * real (length ?xs - 1)"
      using q1 by (intro mult_right_mono) simp_all
    then show "(1 - c1) * real (length ?xs - 1) \<le> real (length (sort ?xs) - 1)"
      by simp
    show "sort ?xs \<noteq> []" using ne by (metis length_sort length_0_conv)
  qed
  then show ?thesis using e1 e2 by blast
qed


theorem rolling_var_monotone_witness:
  "rolling_var [Fin (1/100), Fin (-1/50), Fin (3/100), Fin (-1/100)] 3 (9/10)
     = Inr [NaN, NaN, Fin (-7/500), Fin (-9/500)]
   \<and> rolling_var [Fin (1/100), Fin (-1/50), Fin (3/100), Fin (-1/100)] 3 (19/20)
     = Inr [NaN, NaN, Fin (-17/1000), Fin (-19/1000)]
   \<and> (9/10 :: real) < 19/20
   \<and> 2 < length [Fin (1/100), Fin (-1/50), Fin (3/100), Fin (-1/100)]
   \<and> (0 :: int) < 3 \<and> nat 3 \<le> 2 + 1
   \<and> list_all finite_val
        (take (nat 3) (drop (2 + 1 - nat 3) [Fin (1/100), Fin (-1/50), Fin (3/100), Fin (-1/100)]))
   \<and> (\<exists>a b. [NaN, NaN, Fin (-7/500), Fin (-9/500)] ! 2 = Fin a
          \<and> [NaN, NaN, Fin (-17/1000), Fin (-19/1000)] ! 2 = Fin b \<and> b \<le> a)"
proof -
  have h1: "rolling_var [Fin (1/100), Fin (-1/50), Fin (3/100), Fin (-1/100)] 3 (9/10)
     = Inr [NaN, NaN, Fin (-7/500), Fin (-9/500)]"
    by (simp add: rolling_var_def rolling_def window_quantile_def sort_vals_def fsub_def
        Let_def upt_rec)
  have h2: "rolling_var [Fin (1/100), Fin (-1/50), Fin (3/100), Fin (-1/100)] 3 (19/20)
     = Inr [NaN, NaN, Fin (-17/1000), Fin (-19/1000)]"
    by (simp add: rolling_var_def rolling_def window_quantile_def sort_vals_def fsub_def
        Let_def upt_rec)
  have h3: "(9/10 :: real) < 19/20" by simp
  have h4: "2 < length [Fin (1/100), Fin (-1/50), Fin (3/100), Fin (-1/100)]" by simp
  have h5: "(0 :: int) < 3" by simp
  have h6: "nat 3 \<le> 2 + 1" by simp
  have h7: "list_all finite_val
        (take (nat 3) (drop (2 + 1 - nat 3) [Fin (1/100), Fin (-1/50), Fin (3/100), Fin (-1/100)]))"
    by simp
  show ?thesis
    using rolling_var_monotone [OF h1 h2 h3 h4 h5 h6 h7] h1 h2 h3 h4 h5 h6 h7 by blast
qed


section \<open>The returns transformer's columns\<close>

lemma derive_columns_eq:
  assumes "getcol data ''Price'' = Inr price" and "getcol data ''Rate'' = Inr rate"
  shows "derive_columns data = Inr (derived_frame data price rate)"
  using assms
  by (simp add: derive_columns_def derived_frame_def bindE_def Let_def getcol_setcol_same
      getcol_setcol_other vol_col_def cumulative_col_def peak_col_def drawdown_col_def)

lemma derive_columns_Inr:
  assumes "derive_columns data = Inr df"
  obtains price rate where "getcol data ''Price'' = Inr price" and "getcol data ''Rate'' = Inr rate"
    and "df = derived_frame data price rate"
proof -
  from assms obtain price where p: "getcol data ''Price'' = Inr price"
    by (cases "getcol data ''Price''") (simp_all add: derive_columns_def bindE_def)
  from assms p obtain rate where r: "getcol data ''Rate'' = Inr rate"
    by (cases "getcol data ''Rate''")
      (simp_all add: derive_columns_def bindE_def Let_def getcol_setcol_other)
  from assms derive_columns_eq [OF p r] have "df = derived_frame data price rate" by simp
  with p r that show ?thesis by blast
qed

lemma getcol_derived:
  "getcol (derived_frame data price rate) ''Returns'' = Inr (pct_change price)"
  "getcol (derived_frame data price rate) ''Cumulative'' = Inr (cumulative_col price)"
  "getcol (derived_frame data price rate) ''Peak'' = Inr (peak_col price)"
  "getcol (derived_frame data price rate) ''Drawdown'' = Inr (drawdown_col price)"
  "getcol (derived_frame data price rate) ''Vol_63D'' = Inr (vol_col 63 price)"
  by (simp_all add: derived_frame_def getcol_setcol_same getcol_setcol_other)

lemma index_derived: "index (derived_frame data price rate) = index data"
  by (simp add: derived_frame_def index_setcol)

lemma getcol_dropna:
  "getcol (dropna df) c =
     (case getcol df c of Inl e \<Rightarrow> Inl e | Inr s \<Rightarrow> Inr (map (nth s) (kept_rows df)))"
  by (simp add: getcol_def dropna_def map_of_map split: option.splits)

lemma nrows_dropna: "nrows (dropna df) = length (kept_rows df)"
  by (simp add: nrows_def dropna_def)

lemma kept_rows_mem:
  "t \<in> set (kept_rows df) \<Longrightarrow> t < nrows df \<and> complete_row df t"
  by (simp add: kept_rows_def)

lemma complete_row_getcol:
  assumes "complete_row df t" and "getcol df c = Inr s"
  shows "\<not> isnan (s ! t)"
proof -
  from assms(2) have "map_of (columns df) c = Some s"
    by (simp add: getcol_def split: option.splits)
  then have "(c, s) \<in> set (columns df)" by (rule map_of_SomeD)
  with assms(1) show ?thesis by (auto simp: complete_row_def list_all_iff)
qed

lemma wf_frame_getcol:
  assumes "wf_frame df" and "getcol df c = Inr s"
  shows "length s = nrows df"
proof -
  from assms(2) have "map_of (columns df) c = Some s"
    by (simp add: getcol_def split: option.splits)
  then have "(c, s) \<in> set (columns df)" by (rule map_of_SomeD)
  with assms(1) show ?thesis by (auto simp: wf_frame_def list_all_iff)
qed

lemma fdiv_NaN_right: "fdiv x NaN = NaN"
  by (cases x) simp_all

lemma fadd_NaN_right: "fadd x NaN = NaN"
  by (cases x) simp_all

lemma zip_take_length: "zip xs (take (length xs) ys) = zip xs ys"
proof (induction xs arbitrary: ys)
  case Nil
  then show ?case by simp
next
  case (Cons x xs)
  then show ?case by (cases ys) simp_all
qed

lemma pct_change_Cons:
  "pct_change (x # xs) = NaN # map2 (\<lambda>x p. fsub (fdiv x p) (Fin 1)) xs (x # xs)"
proof -
  have "zip xs (take (length xs) (x # xs)) = zip xs (x # xs)"
    by (rule zip_take_length)
  then show ?thesis
    by (simp add: pct_change_def shift1_def fdiv_NaN_right fsub_def)
qed

lemma length_pct_change: "length (pct_change xs) = length xs"
  by (simp add: pct_change_def length_shift1)

text \<open>The running product of the growth factors telescopes to a price ratio.\<close>

lemma growth_telescopes:
  assumes "p \<noteq> 0" and "\<forall>x \<in> set xs. x \<noteq> 0"
  shows "cumprod_from (Fin a)
           (map (fadd (Fin 1))
              (map2 (\<lambda>x q. fsub (fdiv x q) (Fin 1)) (map Fin xs) (map Fin (p # xs))))
         = map (\<lambda>x. Fin (a * x / p)) xs"
  using assms
proof (induction xs arbitrary: a p)
  case Nil
  then show ?case by simp
next
  case (Cons x xs)
  have x: "x \<noteq> 0" and xs: "\<forall>y \<in> set xs. y \<noteq> 0" using Cons.prems(2) by simp_all
  have step: "fadd (Fin 1) (fsub (fdiv (Fin x) (Fin p)) (Fin 1)) = Fin (x / p)"
    using Cons.prems(1) by (simp add: fsub_def)
  have tail: "cumprod_from (Fin (a * (x / p)))
           (map (fadd (Fin 1))
              (map2 (\<lambda>x q. fsub (fdiv x q) (Fin 1)) (map Fin xs) (map Fin (x # xs))))
         = map (\<lambda>y. Fin (a * (x / p) * y / x)) xs"
    by (rule Cons.IH [OF x xs])
  have "map (\<lambda>y. Fin (a * (x / p) * y / x)) xs = map (\<lambda>y. Fin (a * y / p)) xs"
    using x by simp
  with tail step show ?case by simp
qed

lemma cumulative_col_Cons:
  assumes "p \<noteq> 0" and "\<forall>x \<in> set xs. x \<noteq> 0"
  shows "cumulative_col (map Fin (p # xs)) = NaN # map (\<lambda>x. Fin (x / p)) xs"
  using growth_telescopes [OF assms, of 1]
  by (simp add: cumulative_col_def cumprod_def pct_change_Cons)

lemma cumulative_col_rows:
  assumes "\<forall>x \<in> set ps. x \<noteq> 0"
  shows "cumulative_col (map Fin ps)
         = map (\<lambda>t. if t = 0 then NaN else Fin (ps ! t / ps ! 0)) [0..<length ps]"
proof (cases ps)
  case Nil
  then show ?thesis by (simp add: cumulative_col_def cumprod_def pct_change_def shift1_def)
next
  case (Cons p xs)
  have "NaN # map (\<lambda>x. Fin (x / p)) xs
      = map (\<lambda>t. if t = 0 then NaN else Fin ((p # xs) ! t / p)) [0..<length (p # xs)]"
  proof (rule nth_equalityI)
    show "length (NaN # map (\<lambda>x. Fin (x / p)) xs)
        = length (map (\<lambda>t. if t = 0 then NaN else Fin ((p # xs) ! t / p)) [0..<length (p # xs)])"
      by simp
  next
    fix i
    assume "i < length (NaN # map (\<lambda>x. Fin (x / p)) xs)"
    then have i: "i < Suc (length xs)" by simp
    show "(NaN # map (\<lambda>x. Fin (x / p)) xs) ! i
        = map (\<lambda>t. if t = 0 then NaN else Fin ((p # xs) ! t / p)) [0..<length (p # xs)] ! i"
    proof (cases i)
      case 0
      then show ?thesis by (simp add: upt_conv_Cons)
    next
      case (Suc j)
      then have j: "j < length xs" using i by simp
      have "[0..<length (p # xs)] ! i = i" using i by (simp del: upt_Suc)
      then have "map (\<lambda>t. if t = 0 then NaN else Fin ((p # xs) ! t / p)) [0..<length (p # xs)] ! i
          = Fin ((p # xs) ! i / p)"
        using i Suc by (simp del: upt_Suc)
      then show ?thesis using Suc j by simp
    qed
  qed
  then show ?thesis
    using cumulative_col_Cons [of p xs] assms Cons by simp
qed

lemma length_cumprod_from: "length (cumprod_from a xs) = length xs"
  by (induction xs arbitrary: a) simp_all

lemma length_cummax_from: "length (cummax_from a xs) = length xs"
  by (induction xs arbitrary: a) simp_all

lemma length_cumulative_col: "length (cumulative_col price) = length price"
  by (simp add: cumulative_col_def cumprod_def length_cumprod_from length_pct_change)

lemma length_peak_col: "length (peak_col price) = length price"
  by (simp add: peak_col_def cummax_def length_cummax_from length_cumulative_col)

lemma length_drawdown_col: "length (drawdown_col price) = length price"
  by (simp add: drawdown_col_def length_cumulative_col length_peak_col)

lemma drawdown_col_nth:
  assumes "t < length price"
  shows "drawdown_col price ! t
         = fdiv (fsub (cumulative_col price ! t) (peak_col price ! t)) (peak_col price ! t)"
  using assms by (simp add: drawdown_col_def length_cumulative_col length_peak_col)

lemma fmax_Fin: "fmax (Fin a) (Fin b) = Fin (max a b)"
  by (simp add: fmax_def max_def)

lemma fmax_NInf_Fin: "fmax NInf (Fin b) = Fin b"
  by (simp add: fmax_def)

text \<open>On finite cells the running maximum is the maximum of the cells so far.\<close>

lemma cummax_from_Fin_nth:
  assumes "i < length ys"
  shows "cummax_from (Fin a) (map Fin ys) ! i = Fin (Max (insert a (set (take (Suc i) ys))))"
  using assms
proof (induction ys arbitrary: a i)
  case Nil
  then show ?case by simp
next
  case (Cons y ys)
  show ?case
  proof (cases i)
    case 0
    then show ?thesis by (simp add: fmax_Fin max.commute)
  next
    case (Suc j)
    then have j: "j < length ys" using Cons.prems by simp
    have ne: "set (take (Suc j) ys) \<noteq> {}" using j by (cases ys) auto
    have "Max (insert (max a y) (set (take (Suc j) ys)))
        = Max (insert a (insert y (set (take (Suc j) ys))))"
      using ne by (simp add: max.assoc)
    then show ?thesis
      using Cons.IH [OF j, of "max a y"] Suc by (simp add: fmax_Fin)
  qed
qed

lemma cummax_Fin_nth:
  assumes "i < length ys"
  shows "cummax (map Fin ys) ! i = Fin (Max (set (take (Suc i) ys)))"
proof (cases ys)
  case Nil
  then show ?thesis using assms by simp
next
  case (Cons y zs)
  show ?thesis
  proof (cases i)
    case 0
    then show ?thesis using Cons by (simp add: cummax_def fmax_NInf_Fin)
  next
    case (Suc j)
    then have j: "j < length zs" using assms Cons by simp
    then show ?thesis
      using cummax_from_Fin_nth [OF j, of y] Cons Suc
      by (simp add: cummax_def fmax_NInf_Fin)
  qed
qed

lemma cummax_NaN_Cons: "cummax (NaN # xs) = NaN # cummax xs"
  by (simp add: cummax_def)

text \<open>Rows of the three growth columns, for non-zero finite prices \<open>p # xs\<close>.\<close>

lemma growth_rows:
  assumes "p \<noteq> 0" and "\<forall>x \<in> set xs. x \<noteq> 0" and "j < length xs"
  shows "cumulative_col (map Fin (p # xs)) ! Suc j = Fin (xs ! j / p)"
    and "peak_col (map Fin (p # xs)) ! Suc j = Fin (Max (set (take (Suc j) (map (\<lambda>x. x / p) xs))))"
proof -
  have c: "cumulative_col (map Fin (p # xs)) = NaN # map Fin (map (\<lambda>x. x / p) xs)"
    using cumulative_col_Cons [OF assms(1,2)] by (simp add: comp_def)
  show "cumulative_col (map Fin (p # xs)) ! Suc j = Fin (xs ! j / p)"
    unfolding c using assms(3) by simp
  have j: "j < length (map (\<lambda>x. x / p) xs)" using assms(3) by simp
  show "peak_col (map Fin (p # xs)) ! Suc j = Fin (Max (set (take (Suc j) (map (\<lambda>x. x / p) xs))))"
    unfolding peak_col_def c cummax_NaN_Cons using cummax_Fin_nth [OF j] by simp
qed

lemma drawdown_row:
  assumes "0 < p" and "\<forall>x \<in> set xs. 0 < x" and "j < length xs"
  shows "\<exists>c pk. cumulative_col (map Fin (p # xs)) ! Suc j = Fin c
           \<and> peak_col (map Fin (p # xs)) ! Suc j = Fin pk
           \<and> drawdown_col (map Fin (p # xs)) ! Suc j = Fin (c / pk - 1)
           \<and> 0 < c \<and> c \<le> pk"
proof -
  let ?cs = "map (\<lambda>x. x / p) xs"
  let ?c = "xs ! j / p"
  let ?pk = "Max (set (take (Suc j) ?cs))"
  have nz: "p \<noteq> 0" "\<forall>x \<in> set xs. x \<noteq> 0" using assms(1,2) by auto
  note rows = growth_rows [OF nz assms(3)]
  have "xs ! j \<in> set xs" using assms(3) by simp
  then have cpos: "0 < ?c" using assms(1,2) by simp
  have "?cs ! j \<in> set (take (Suc j) ?cs)"
    using assms(3) by (metis length_map lessI nth_take in_set_conv_nth length_take min_less_iff_conj)
  then have "?cs ! j \<le> ?pk" by simp
  then have le: "?c \<le> ?pk" using assms(3) by simp
  then have pkpos: "0 < ?pk" using cpos by linarith
  have "drawdown_col (map Fin (p # xs)) ! Suc j = fdiv (fsub (Fin ?c) (Fin ?pk)) (Fin ?pk)"
    using drawdown_col_nth [of "Suc j" "map Fin (p # xs)"] assms(3) rows by simp
  also have "\<dots> = Fin ((?c - ?pk) / ?pk)" using pkpos by (simp add: fsub_def)
  also have "(?c - ?pk) / ?pk = ?c / ?pk - 1" using pkpos by (simp add: diff_divide_distrib)
  finally show ?thesis using rows cpos le by blast
qed

lemma drawdown_row_nonzero:
  assumes "p \<noteq> 0" and "\<forall>x \<in> set xs. x \<noteq> 0" and "j < length xs"
  shows "\<exists>c m. cumulative_col (map Fin (p # xs)) ! Suc j = Fin c
           \<and> peak_col (map Fin (p # xs)) ! Suc j = Fin m \<and> m \<noteq> 0
           \<and> drawdown_col (map Fin (p # xs)) ! Suc j = Fin ((c - m) / m)"
proof -
  let ?cs = "map (\<lambda>x. x / p) xs"
  let ?c = "xs ! j / p"
  let ?pk = "Max (set (take (Suc j) ?cs))"
  note rows = growth_rows [OF assms]
  have ne: "set (take (Suc j) ?cs) \<noteq> {}" using assms(3) by (cases xs) auto
  have "?pk \<in> set (take (Suc j) ?cs)" using ne by (intro Max_in) simp_all
  then have "?pk \<in> set ?cs" by (rule in_set_takeD)
  then obtain x where "x \<in> set xs" and "?pk = x / p" by auto
  then have pk: "?pk \<noteq> 0" using assms(1,2) by simp
  have "drawdown_col (map Fin (p # xs)) ! Suc j = fdiv (fsub (Fin ?c) (Fin ?pk)) (Fin ?pk)"
    using drawdown_col_nth [of "Suc j" "map Fin (p # xs)"] assms(3) rows by simp
  also have "\<dots> = Fin ((?c - ?pk) / ?pk)" using pk by (simp add: fsub_def)
  finally show ?thesis using rows pk by blast
qed

text \<open>The cells so far, as the rows 1 to \<open>Suc j\<close> of the price list.\<close>

lemma running_max_image:
  assumes "j < length xs"
  shows "set (take (Suc j) (map (\<lambda>x. x / p) xs)) = (\<lambda>i. (p # xs) ! i / p) ` {1..Suc j}"
proof -
  have "Suc j \<le> length (map (\<lambda>x. x / p) xs)" using assms by simp
  then have "nth (map (\<lambda>x. x / p) xs) ` {0..<Suc j} = set (take (Suc j) (map (\<lambda>x. x / p) xs))"
    by (rule nth_image)
  then have "set (take (Suc j) (map (\<lambda>x. x / p) xs)) = nth (map (\<lambda>x. x / p) xs) ` {0..<Suc j}"
    by (rule sym)
  also have "\<dots> = (\<lambda>i. xs ! i / p) ` {0..<Suc j}"
  proof (rule image_cong [OF refl])
    fix i assume "i \<in> {0..<Suc j}"
    then have "i < length xs" using assms by simp
    then show "map (\<lambda>x. x / p) xs ! i = xs ! i / p" by simp
  qed
  also have "\<dots> = (\<lambda>i. (p # xs) ! i / p) ` Suc ` {0..<Suc j}"
    by (simp only: image_image nth_Cons_Suc)
  also have "Suc ` {0..<Suc j} = {1..Suc j}"
    by (simp only: image_Suc_atLeastLessThan) auto
  finally show ?thesis .
qed

lemma calculate_returns_Inr:
  assumes "calculate_returns data = Inr out"
  obtains price rate where "getcol data ''Price'' = Inr price" and "getcol data ''Rate'' = Inr rate"
    and "out = dropna (derived_frame data price rate)"
proof -
  from assms obtain df where df: "derive_columns data = Inr df" and out: "out = dropna df"
    by (cases "derive_columns data") (auto simp: calculate_returns_def bindE_def)
  from df obtain price rate where "getcol data ''Price'' = Inr price"
    "getcol data ''Rate'' = Inr rate" "df = derived_frame data price rate"
    by (rule derive_columns_Inr)
  with out that show ?thesis by blast
qed


section \<open>Retained rows\<close>

lemma fsum_Fin: "fsum (map Fin zs) = Fin (sum_list zs)"
  by (induction zs) (simp_all add: fsum_def)

lemma fstd_Fin:
  assumes "2 \<le> length zs"
  shows "\<exists>v. fstd (map Fin zs) = Fin v"
proof -
  let ?n = "length zs"
  let ?m = "sum_list zs / real ?n"
  have n0: "real ?n \<noteq> 0" and n1: "real (?n - 1) \<noteq> 0" using assms by auto
  have mean: "fmean (map Fin zs) = Fin ?m"
    using n0 by (simp add: fmean_def fsum_Fin)
  have sq: "map (\<lambda>x. fmul (fsub x (Fin ?m)) (fsub x (Fin ?m))) (map Fin zs)
      = map Fin (map (\<lambda>z. (z - ?m) * (z - ?m)) zs)"
    by (simp add: fsub_def)
  let ?ss = "sum_list (map (\<lambda>z. (z - ?m) * (z - ?m)) zs)"
  have "0 \<le> ?ss" by (rule sum_list_nonneg) auto
  then have nonneg: "\<not> ?ss / real (?n - 1) < 0"
    by (simp add: divide_nonneg_nonneg not_less)
  have "fstd (map Fin zs) = fsqrt (fdiv (Fin ?ss) (Fin (real (?n - 1))))"
    using assms unfolding fstd_def Let_def mean sq fsum_Fin by simp
  also have "\<dots> = fsqrt (Fin (?ss / real (?n - 1)))"
    using n1 by simp
  also have "\<dots> = Fin (sqrt (?ss / real (?n - 1)))"
    using nonneg by simp
  finally show ?thesis by blast
qed

lemma rolling_nth:
  assumes "t < length xs"
  shows "rolling w agg xs ! t =
     (if t + 1 < w then NaN
      else if list_ex isnan (take w (drop (t + 1 - w) xs)) then NaN
      else agg (take w (drop (t + 1 - w) xs)))"
  using assms by (simp add: rolling_def Let_def)

lemma rolling_head_nan:
  assumes "t < length (NaN # ys)" and "t < w"
  shows "rolling w agg (NaN # ys) ! t = NaN"
proof (cases "t + 1 < w")
  case True
  then show ?thesis using assms(1) by (simp add: rolling_nth)
next
  case False
  then have "t + 1 - w = 0" using assms(2) by simp
  moreover obtain v where "w = Suc v" using assms(2) by (cases w) auto
  ultimately show ?thesis using assms(1) by (simp add: rolling_nth)
qed

lemma rolling_fstd_tail:
  assumes "t < length (NaN # map Fin ys)" and "2 \<le> w" and "w \<le> t"
  shows "\<exists>v. rolling w fstd (NaN # map Fin ys) ! t = Fin v"
proof -
  obtain m where m: "t + 1 - w = Suc m" using assms(3) by (cases "t + 1 - w") auto
  have win: "take w (drop (t + 1 - w) (NaN # map Fin ys)) = map Fin (take w (drop m ys))"
    unfolding m by (simp add: take_map drop_map)
  have len: "length (take w (drop m ys)) = w"
    using assms(1,3) m by simp
  have nonan: "\<not> list_ex isnan (map Fin (take w (drop m ys)))"
    by (simp add: list_ex_iff)
  have "2 \<le> length (take w (drop m ys))" using assms(2) by (simp only: len)
  then obtain v where "fstd (map Fin (take w (drop m ys))) = Fin v"
    using fstd_Fin by blast
  then show ?thesis
    using assms(1,3) nonan unfolding rolling_nth [OF assms(1)] win by simp
qed

lemma annualize_nth: "t < length xs \<Longrightarrow> annualize xs ! t = fmul (xs ! t) (Fin (sqrt 252))"
  by (simp add: annualize_def)

lemma length_annualize: "length (annualize xs) = length xs"
  by (simp add: annualize_def)

lemma pct_change_Fin:
  assumes "p \<noteq> 0" and "\<forall>x \<in> set xs. x \<noteq> 0"
  shows "pct_change (map Fin (p # xs)) = NaN # map Fin (map2 (\<lambda>x q. x / q - 1) xs (p # xs))"
proof -
  have "map2 (\<lambda>x q. fsub (fdiv x q) (Fin 1)) (map Fin xs) (map Fin (p # xs))
      = map (\<lambda>(x, q). fsub (fdiv (Fin x) (Fin q)) (Fin 1)) (zip xs (p # xs))"
    by (simp only: zip_map_map map_map) (simp add: comp_def case_prod_unfold)
  also have "\<dots> = map (\<lambda>(x, q). Fin (x / q - 1)) (zip xs (p # xs))"
  proof (rule map_cong [OF refl])
    fix z assume z: "z \<in> set (zip xs (p # xs))"
    obtain x q where xq: "z = (x, q)" by (cases z)
    from z have "q \<in> set (p # xs)" unfolding xq by (rule set_zip_rightD)
    then have "q \<noteq> 0" using assms by auto
    then show "(case z of (x, q) \<Rightarrow> fsub (fdiv (Fin x) (Fin q)) (Fin 1))
        = (case z of (x, q) \<Rightarrow> Fin (x / q - 1))"
      by (simp add: xq fsub_def)
  qed
  also have "\<dots> = map Fin (map2 (\<lambda>x q. x / q - 1) xs (p # xs))"
    by (simp add: comp_def case_prod_unfold)
  finally show ?thesis
    unfolding pct_change_Cons [of "Fin p" "map Fin xs", folded list.map] by simp
qed

lemma filter_upt_ge: "filter (\<lambda>t. m \<le> t) [0..<n] = [m..<n]"
proof (induction n)
  case 0
  then show ?case by simp
next
  case (Suc n)
  then show ?case by (cases "m \<le> n") simp_all
qed

lemma columns_derived_loaded:
  "columns (derived_frame (loaded idx price rate) price rate) =
     [(''Price'', price), (''Rate'', rate), (''Returns'', pct_change price),
      (''Rate_Change'', pct_change rate), (''Vol_21D'', vol_col 21 price),
      (''Vol_63D'', vol_col 63 price), (''Cumulative'', cumulative_col price),
      (''Peak'', peak_col price), (''Drawdown'', drawdown_col price)]"
  by (simp add: derived_frame_def loaded_def setcol_def)

lemma complete_row_loaded:
  "complete_row (derived_frame (loaded idx price rate) price rate) t =
     (\<not> isnan (price ! t) \<and> \<not> isnan (rate ! t) \<and> \<not> isnan (pct_change price ! t)
      \<and> \<not> isnan (pct_change rate ! t) \<and> \<not> isnan (vol_col 21 price ! t)
      \<and> \<not> isnan (vol_col 63 price ! t) \<and> \<not> isnan (cumulative_col price ! t)
      \<and> \<not> isnan (peak_col price ! t) \<and> \<not> isnan (drawdown_col price ! t))"
  by (simp add: complete_row_def columns_derived_loaded)

lemma vol_col_nan:
  assumes "p \<noteq> 0" and "\<forall>x \<in> set xs. x \<noteq> 0" and "t < length (p # xs)" and "t < w"
  shows "vol_col w (map Fin (p # xs)) ! t = NaN"
proof -
  let ?rv = "map2 (\<lambda>x q. x / q - 1) xs (p # xs)"
  have r: "pct_change (map Fin (p # xs)) = NaN # map Fin ?rv"
    using assms(1,2) by (rule pct_change_Fin)
  have t: "t < length (NaN # map Fin ?rv)" using assms(3) by simp
  have "rolling w fstd (NaN # map Fin ?rv) ! t = NaN"
    using t assms(4) by (rule rolling_head_nan)
  then show ?thesis
    unfolding vol_col_def r using t by (simp add: annualize_nth length_rolling)
qed

lemma vol_col_fin:
  assumes "p \<noteq> 0" and "\<forall>x \<in> set xs. x \<noteq> 0" and "t < length (p # xs)"
    and "2 \<le> w" and "w \<le> t"
  shows "\<exists>v. vol_col w (map Fin (p # xs)) ! t = Fin v"
proof -
  let ?rv = "map2 (\<lambda>x q. x / q - 1) xs (p # xs)"
  have r: "pct_change (map Fin (p # xs)) = NaN # map Fin ?rv"
    using assms(1,2) by (rule pct_change_Fin)
  have t: "t < length (NaN # map Fin ?rv)" using assms(3) by simp
  obtain v where "rolling w fstd (NaN # map Fin ?rv) ! t = Fin v"
    using rolling_fstd_tail [OF t assms(4,5)] by blast
  then show ?thesis
    unfolding vol_col_def r using t by (simp add: annualize_nth length_rolling)
qed

lemma tail_not_nan: "j < length zs \<Longrightarrow> \<not> isnan ((NaN # map Fin zs) ! Suc j)"
  by simp

lemma pct_change_row:
  assumes "p \<noteq> 0" and "\<forall>x \<in> set xs. x \<noteq> 0" and "t < length (p # xs)"
  shows "isnan (pct_change (map Fin (p # xs)) ! t) = (t = 0)"
proof (cases t)
  case 0
  show ?thesis unfolding pct_change_Fin [OF assms(1,2)] 0 by simp
next
  case (Suc j)
  then have "j < length (map2 (\<lambda>x q. x / q - 1) xs (p # xs))" using assms(3) by simp
  then have nn: "\<not> isnan ((NaN # map Fin (map2 (\<lambda>x q. x / q - 1) xs (p # xs))) ! Suc j)"
    by (rule tail_not_nan)
  have "Suc j \<noteq> 0" by simp
  with nn show ?thesis unfolding pct_change_Fin [OF assms(1,2)] Suc by blast
qed

lemma complete_row_nonzero:
  assumes "length rs = length ps" and "\<forall>x \<in> set ps. x \<noteq> 0" and "\<forall>x \<in> set rs. x \<noteq> 0"
    and "t < length ps"
  shows "complete_row (derived_frame (loaded idx (map Fin ps) (map Fin rs)) (map Fin ps) (map Fin rs)) t
         = (63 \<le> t)"
proof -
  obtain p xs where ps: "ps = p # xs" using assms(4) by (cases ps) auto
  obtain r ys where rs: "rs = r # ys" using assms(1,4) by (cases rs) auto
  have pnz: "p \<noteq> 0" "\<forall>x \<in> set xs. x \<noteq> 0" using assms(2) by (auto simp: ps)
  have rnz: "r \<noteq> 0" "\<forall>x \<in> set ys. x \<noteq> 0" using assms(3) by (auto simp: rs)
  have tp: "t < length (p # xs)" using assms(4) by (simp add: ps)
  have tr: "t < length (r # ys)" using assms(1,4) by (simp add: rs)
  show ?thesis
  proof (cases "63 \<le> t")
    case False
    then have "vol_col 63 (map Fin (p # xs)) ! t = NaN"
      using vol_col_nan [OF pnz tp, of 63] by simp
    then show ?thesis using False by (simp add: complete_row_loaded ps)
  next
    case True
    then obtain j where j: "t = Suc j" by (cases t) auto
    then have jl: "j < length xs" using tp by simp
    obtain v1 where v1: "vol_col 21 (map Fin (p # xs)) ! t = Fin v1"
      using vol_col_fin [OF pnz tp, of 21] True by auto
    obtain v2 where v2: "vol_col 63 (map Fin (p # xs)) ! t = Fin v2"
      using vol_col_fin [OF pnz tp, of 63] True by auto
    obtain c m where g: "cumulative_col (map Fin (p # xs)) ! t = Fin c"
      "peak_col (map Fin (p # xs)) ! t = Fin m"
      "drawdown_col (map Fin (p # xs)) ! t = Fin ((c - m) / m)"
      using drawdown_row_nonzero [OF pnz jl] unfolding j by blast
    have r1: "\<not> isnan (pct_change (map Fin (p # xs)) ! t)"
      using pct_change_row [OF pnz tp] j by simp
    have r2: "\<not> isnan (pct_change (map Fin (r # ys)) ! t)"
      using pct_change_row [OF rnz tr] j by simp
    have c1: "\<not> isnan (map Fin (p # xs) ! t)" using tp by (simp only: nth_map isnan.simps) simp
    have c2: "\<not> isnan (map Fin (r # ys) ! t)" using tr by (simp only: nth_map isnan.simps) simp
    show ?thesis
      unfolding complete_row_loaded ps rs using True r1 r2 c1 c2 v1 v2 g by simp
  qed
qed

lemma kept_rows_loaded:
  assumes "length idx = length ps" and "length rs = length ps"
    and "\<forall>x \<in> set ps. x \<noteq> 0" and "\<forall>x \<in> set rs. x \<noteq> 0"
  shows "kept_rows (derived_frame (loaded idx (map Fin ps) (map Fin rs)) (map Fin ps) (map Fin rs))
         = [63..<length ps]"
proof -
  let ?df = "derived_frame (loaded idx (map Fin ps) (map Fin rs)) (map Fin ps) (map Fin rs)"
  have n: "nrows ?df = length ps"
    using assms(1) by (simp add: nrows_def index_derived loaded_def)
  have "filter (complete_row ?df) [0..<length ps] = filter (\<lambda>t. 63 \<le> t) [0..<length ps]"
  proof (rule filter_cong [OF refl])
    fix t assume "t \<in> set [0..<length ps]"
    then have "t < length ps" by simp
    then show "complete_row ?df t = (63 \<le> t)"
      using complete_row_nonzero [OF assms(2,3,4)] by blast
  qed
  then show ?thesis by (simp add: kept_rows_def n filter_upt_ge)
qed

lemma getcol_loaded:
  "getcol (loaded idx price rate) ''Price'' = Inr price"
  "getcol (loaded idx price rate) ''Rate'' = Inr rate"
  by (simp_all add: getcol_def loaded_def)

lemma calculate_returns_loaded:
  assumes "length idx = length ps" and "length rs = length ps"
    and "\<forall>x \<in> set ps. x \<noteq> 0" and "\<forall>x \<in> set rs. x \<noteq> 0"
  shows "calculate_returns (loaded idx (map Fin ps) (map Fin rs))
         = Inr (dropna (derived_frame (loaded idx (map Fin ps) (map Fin rs)) (map Fin ps) (map Fin rs)))"
    and "result_column (calculate_returns (loaded idx (map Fin ps) (map Fin rs))) ''Cumulative''
         = Inr (map (\<lambda>t. Fin (ps ! t / ps ! 0)) [63..<length ps])"
proof -
  let ?data = "loaded idx (map Fin ps) (map Fin rs)"
  let ?df = "derived_frame ?data (map Fin ps) (map Fin rs)"
  have d: "derive_columns ?data = Inr ?df"
    by (rule derive_columns_eq [OF getcol_loaded])
  show c: "calculate_returns ?data = Inr (dropna ?df)"
    by (simp add: calculate_returns_def d bindE_def)
  note nz = assms(3)
  have "map (nth (cumulative_col (map Fin ps))) [63..<length ps]
      = map (\<lambda>t. Fin (ps ! t / ps ! 0)) [63..<length ps]"
    unfolding cumulative_col_rows [OF nz] by (rule map_cong [OF refl]) simp
  then show "result_column (calculate_returns ?data) ''Cumulative''
         = Inr (map (\<lambda>t. Fin (ps ! t / ps ! 0)) [63..<length ps])"
    by (simp add: result_column_def c bindE_def getcol_dropna getcol_derived
        kept_rows_loaded [OF assms])
qed

lemma dip_facts:
  "length [0..<64] = length dip_price_values"
  "length dip_rate_values = length dip_price_values"
  "\<forall>x \<in> set dip_price_values. x \<noteq> 0"
  "\<forall>x \<in> set dip_rate_values. x \<noteq> 0"
  by (simp_all add: dip_price_values_def dip_rate_values_def)

lemma dip_kept:
  "kept_rows (derived_frame dip_prices (map Fin dip_price_values) (map Fin dip_rate_values)) = [63]"
proof -
  have "[63..<length dip_price_values] = [63]"
    by (simp add: dip_price_values_def upt_rec)
  then show ?thesis
    unfolding dip_prices_def kept_rows_loaded [OF dip_facts] .
qed

lemma dip_calculate: "calculate_returns dip_prices = Inr dip_table"
  unfolding dip_prices_def dip_table_def by (rule calculate_returns_loaded(1) [OF dip_facts])

lemma dip_rows:
  "cumulative_col (map Fin dip_price_values) ! 63 = Fin (99/100)"
  "peak_col (map Fin dip_price_values) ! 63 = Fin (11/10)"
proof -
  have nz: "(100::real) \<noteq> 0" "\<forall>x \<in> set (110 # replicate 62 (99::real)). x \<noteq> 0" by auto
  have j: "62 < length (110 # replicate 62 (99::real))" by simp
  have s: "Suc 62 = 63" by simp
  show "cumulative_col (map Fin dip_price_values) ! 63 = Fin (99/100)"
    using growth_rows(1) [OF nz j] unfolding dip_price_values_def s by simp
  have "Max (set (take (Suc 62) (map (\<lambda>x. x / 100) (110 # replicate 62 (99::real))))) = 11/10"
    by simp
  then show "peak_col (map Fin dip_price_values) ! 63 = Fin (11/10)"
    using growth_rows(2) [OF nz j] unfolding dip_price_values_def s by simp
qed

lemma dip_columns:
  "getcol dip_table ''Cumulative'' = Inr [Fin (99/100)]"
  "getcol dip_table ''Peak'' = Inr [Fin (11/10)]"
  "getcol dip_table ''Drawdown'' = Inr [Fin (- 1/10)]"
proof -
  show "getcol dip_table ''Cumulative'' = Inr [Fin (99/100)]"
    by (simp add: dip_table_def getcol_dropna getcol_derived dip_kept dip_rows)
  show "getcol dip_table ''Peak'' = Inr [Fin (11/10)]"
    by (simp add: dip_table_def getcol_dropna getcol_derived dip_kept dip_rows)
  have "(63::nat) < length (map Fin dip_price_values)" by (simp add: dip_price_values_def)
  then have "drawdown_col (map Fin dip_price_values) ! 63 = Fin (- 1/10)"
    by (simp add: drawdown_col_nth dip_rows fsub_def)
  then show "getcol dip_table ''Drawdown'' = Inr [Fin (- 1/10)]"
    by (simp add: dip_table_def getcol_dropna getcol_derived dip_kept)
qed


section \<open>Drawdown\<close>

lemma negative_facts:
  "length [0..<64] = length negative_price_values"
  "length dip_rate_values = length negative_price_values"
  "\<forall>x \<in> set negative_price_values. x \<noteq> 0"
  "\<forall>x \<in> set dip_rate_values. x \<noteq> 0"
  by (simp_all add: negative_price_values_def dip_rate_values_def)

lemma negative_kept:
  "kept_rows (derived_frame negative_prices (map Fin negative_price_values)
      (map Fin dip_rate_values)) = [63]"
proof -
  have "[63..<length negative_price_values] = [63]"
    by (simp add: negative_price_values_def upt_rec)
  then show ?thesis
    unfolding negative_prices_def kept_rows_loaded [OF negative_facts] .
qed

lemma negative_rows:
  "cumulative_col (map Fin negative_price_values) ! 63 = Fin (- 1)"
  "peak_col (map Fin negative_price_values) ! 63 = Fin (- 1/2)"
proof -
  have nz: "(100::real) \<noteq> 0" "\<forall>x \<in> set ((- 50) # replicate 62 (- 100 :: real)). x \<noteq> 0"
    by auto
  have j: "62 < length ((- 50) # replicate 62 (- 100 :: real))" by simp
  have s: "Suc 62 = 63" by simp
  show "cumulative_col (map Fin negative_price_values) ! 63 = Fin (- 1)"
    using growth_rows(1) [OF nz j] unfolding negative_price_values_def s by simp
  have "Max (set (take (Suc 62) (map (\<lambda>x. x / 100) ((- 50) # replicate 62 (- 100 :: real)))))
      = - 1/2"
    by simp
  then show "peak_col (map Fin negative_price_values) ! 63 = Fin (- 1/2)"
    using growth_rows(2) [OF nz j] unfolding negative_price_values_def s by simp
qed

lemma negative_drawdown:
  "result_column (calculate_returns negative_prices) ''Drawdown'' = Inr [Fin 1]"
proof -
  have "(63::nat) < length (map Fin negative_price_values)"
    by (simp add: negative_price_values_def)
  then have "drawdown_col (map Fin negative_price_values) ! 63 = Fin 1"
    by (simp add: drawdown_col_nth negative_rows fsub_def)
  then show ?thesis
    unfolding negative_prices_def result_column_def
      calculate_returns_loaded(1) [OF negative_facts]
    by (simp add: bindE_def getcol_dropna getcol_derived
        negative_kept [unfolded negative_prices_def])
qed

text \<open>
  C5, as stated, fails. On the 64-day table the one returned row has Cumulative 99/100,
  which is the running maximum of the returned Cumulative column, and yet its drawdown
  is -1/10: the peak was reached on day 1, a row that is dropped. And on the table with
  negative values the returned row has drawdown 1, which is above 0.
\<close>

theorem drawdown_running_maximum_counterexample:
  "result_column (calculate_returns dip_prices) ''Cumulative'' = Inr [Fin (99/100)]
   \<and> cummax [Fin (99/100)] = [Fin (99/100)]
   \<and> result_column (calculate_returns dip_prices) ''Drawdown'' = Inr [Fin (- 1/10)]
   \<and> result_column (calculate_returns negative_prices) ''Drawdown'' = Inr [Fin 1]"
  using dip_columns negative_drawdown
  by (simp add: result_column_def dip_calculate bindE_def cummax_def fmax_def)

text \<open>
  C5, amended. For positive prices, every row of the table \<open>calculate_returns\<close> produces
  is an input row \<open>t \<ge> 63\<close>; its cumulative index is price[t] / price[0], its peak is the
  maximum of that index over the input rows 1 to \<open>t\<close> (the rows dropped later included),
  its drawdown is cumulative / peak - 1, which is at most 0, and which is 0 exactly when
  the cumulative index equals that peak.
\<close>

theorem drawdown_against_input_peak:
  assumes "calculate_returns data = Inr out"
    and "wf_frame data"
    and "getcol data ''Price'' = Inr (map Fin ps)"
    and "list_all (\<lambda>x. 0 < x) ps"
    and "getcol out ''Cumulative'' = Inr cu"
    and "getcol out ''Peak'' = Inr pk"
    and "getcol out ''Drawdown'' = Inr dd"
    and "k < nrows out"
  shows "\<exists>t c p. 63 \<le> t \<and> t < length ps \<and> index out ! k = index data ! t
           \<and> c = ps ! t / ps ! 0 \<and> p = Max ((\<lambda>j. ps ! j / ps ! 0) ` {1..t})
           \<and> cu ! k = Fin c \<and> pk ! k = Fin p \<and> dd ! k = Fin (c / p - 1)
           \<and> c \<le> p \<and> c / p - 1 \<le> 0 \<and> (c / p - 1 = 0) = (c = p)"
proof -
  let ?price = "map Fin ps"
  from assms(1) obtain price' rate where p': "getcol data ''Price'' = Inr price'"
    and out: "out = dropna (derived_frame data price' rate)"
    by (rule calculate_returns_Inr)
  from p' assms(3) have [simp]: "price' = ?price" by simp
  let ?df = "derived_frame data ?price rate"
  let ?kept = "kept_rows ?df"
  define t where "t = ?kept ! k"
  have k: "k < length ?kept" using assms(8) by (simp add: out nrows_dropna)
  then have "t \<in> set ?kept" by (simp add: t_def)
  then have t: "t < nrows ?df" and row: "complete_row ?df t"
    using kept_rows_mem by blast+
  have len: "length ?price = nrows data" using assms(2,3) by (rule wf_frame_getcol)
  have tl: "t < length ps" using t len by (simp add: nrows_def index_derived)
  have idx: "index out ! k = index data ! t"
    using k by (simp add: out dropna_def index_derived t_def)
  have cu: "cu ! k = cumulative_col ?price ! t"
    using assms(5) k by (auto simp: out getcol_dropna getcol_derived t_def)
  have pk: "pk ! k = peak_col ?price ! t"
    using assms(6) k by (auto simp: out getcol_dropna getcol_derived t_def)
  have dd: "dd ! k = drawdown_col ?price ! t"
    using assms(7) k by (auto simp: out getcol_dropna getcol_derived t_def)
  have pos: "\<forall>x \<in> set ps. 0 < x" using assms(4) by (simp add: list_all_iff)
  from tl obtain p xs where ps: "ps = p # xs" by (cases ps) auto
  have ppos: "0 < p" "\<forall>x \<in> set xs. 0 < x" using pos by (simp_all add: ps)
  have pnz: "p \<noteq> 0" "\<forall>x \<in> set xs. x \<noteq> 0" using ppos by auto
  have tp: "t < length (p # xs)" using tl by (simp add: ps)
  have v: "\<not> isnan (vol_col 63 ?price ! t)"
    using row getcol_derived(5) by (rule complete_row_getcol)
  have t63: "63 \<le> t"
  proof (rule ccontr)
    assume "\<not> 63 \<le> t"
    then have "t < 63" by simp
    then have "vol_col 63 (map Fin (p # xs)) ! t = NaN"
      using vol_col_nan [OF pnz tp] by blast
    then show False using v by (simp add: ps)
  qed
  then obtain j where j: "t = Suc j" by (cases t) auto
  then have jl: "j < length xs" using tp by simp
  define c where "c = ps ! t / ps ! 0"
  define m where "m = Max ((\<lambda>j. ps ! j / ps ! 0) ` {1..t})"
  have "cumulative_col (map Fin (p # xs)) ! Suc j = Fin ((p # xs) ! Suc j / (p # xs) ! 0)"
    using growth_rows(1) [OF pnz jl] by simp
  then have c: "cumulative_col ?price ! t = Fin c"
    unfolding c_def ps j .
  have "peak_col (map Fin (p # xs)) ! Suc j
      = Fin (Max ((\<lambda>i. (p # xs) ! i / (p # xs) ! 0) ` {1..Suc j}))"
    unfolding growth_rows(2) [OF pnz jl] running_max_image [OF jl] by simp
  then have m: "peak_col ?price ! t = Fin m"
    unfolding m_def ps j .
  from drawdown_row [OF ppos jl] obtain c' m' where
    c': "cumulative_col ?price ! t = Fin c'"
    and m': "peak_col ?price ! t = Fin m'"
    and d': "drawdown_col ?price ! t = Fin (c' / m' - 1)"
    and cpos: "0 < c'" and le': "c' \<le> m'"
    unfolding ps j by blast
  have ceq: "c' = c" using c c' by simp
  have meq: "m' = m" using m m' by simp
  have d: "drawdown_col ?price ! t = Fin (c / m - 1)"
    using d' unfolding ceq meq .
  have le: "c \<le> m" using le' unfolding ceq meq .
  have mpos: "0 < m" using cpos le' unfolding ceq meq by linarith
  have "c / m \<le> 1" using le mpos by simp
  then have d0: "c / m - 1 \<le> 0" by simp
  have iff: "(c / m - 1 = 0) = (c = m)" using mpos by (simp add: field_simps)
  show ?thesis
  proof (rule exI [of _ t], rule exI [of _ c], rule exI [of _ m], intro conjI)
    show "63 \<le> t" by (rule t63)
    show "t < length ps" by (rule tl)
    show "index out ! k = index data ! t" by (rule idx)
    show "c = ps ! t / ps ! 0" by (rule c_def)
    show "m = Max ((\<lambda>j. ps ! j / ps ! 0) ` {1..t})" by (rule m_def)
    show "cu ! k = Fin c" using cu c by simp
    show "pk ! k = Fin m" using pk m by simp
    show "dd ! k = Fin (c / m - 1)" using dd d by simp
    show "c \<le> m" by (rule le)
    show "c / m - 1 \<le> 0" by (rule d0)
    show "(c / m - 1 = 0) = (c = m)" by (rule iff)
  qed
qed

theorem drawdown_against_input_peak_witness:
  "calculate_returns dip_prices = Inr dip_table
   \<and> wf_frame dip_prices
   \<and> getcol dip_prices ''Price'' = Inr (map Fin dip_price_values)
   \<and> list_all (\<lambda>x. 0 < x) dip_price_values
   \<and> getcol dip_table ''Cumulative'' = Inr [Fin (99/100)]
   \<and> getcol dip_table ''Peak'' = Inr [Fin (11/10)]
   \<and> getcol dip_table ''Drawdown'' = Inr [Fin (- 1/10)]
   \<and> 0 < nrows dip_table
   \<and> (\<exists>t c p. 63 \<le> t \<and> t < length dip_price_values
          \<and> index dip_table ! 0 = index dip_prices ! t
          \<and> c = dip_price_values ! t / dip_price_values ! 0
          \<and> p = Max ((\<lambda>j. dip_price_values ! j / dip_price_values ! 0) ` {1..t})
          \<and> [Fin (99/100)] ! 0 = Fin c \<and> [Fin (11/10)] ! 0 = Fin p
          \<and> [Fin (- 1/10)] ! 0 = Fin (c / p - 1)
          \<and> c \<le> p \<and> c / p - 1 \<le> 0 \<and> (c / p - 1 = 0) = (c = p))"
proof -
  have h2: "wf_frame dip_prices"
    by (simp add: wf_frame_def dip_prices_def loaded_def nrows_def dip_price_values_def
        dip_rate_values_def)
  have h3: "getcol dip_prices ''Price'' = Inr (map Fin dip_price_values)"
    by (simp add: dip_prices_def getcol_loaded)
  have h4: "list_all (\<lambda>x. 0 < x) dip_price_values"
    by (simp add: dip_price_values_def list_all_iff)
  have h8: "0 < nrows dip_table"
    by (simp add: dip_table_def nrows_dropna dip_kept)
  show ?thesis
    using drawdown_against_input_peak [OF dip_calculate h2 h3 h4 dip_columns h8]
      dip_calculate h2 h3 h4 dip_columns h8
    by blast
qed

section \<open>Cumulative growth\<close>

lemma derive_cumulative_loaded:
  assumes "\<forall>x \<in> set ps. 0 < x"
  shows "result_column (derive_columns (loaded idx (map Fin ps) (map Fin rs))) ''Cumulative''
         = Inr (map (\<lambda>t. if t = 0 then NaN else Fin (ps ! t / ps ! 0)) [0..<length ps])"
proof -
  have nz: "\<forall>x \<in> set ps. x \<noteq> 0" using assms by auto
  show ?thesis
    by (simp add: result_column_def derive_columns_eq [OF getcol_loaded] bindE_def
        getcol_derived cumulative_col_rows [OF nz])
qed


text \<open>
  C2, as stated, fails. On the 64-day table the only retained row is day 63, and its
  cumulative index is 99/100, not 1; on the example prices no row is retained at all.
\<close>

theorem first_retained_row_not_rebased_counterexample:
  "result_column (calculate_returns dip_prices) ''Cumulative'' = Inr [Fin (99/100)]
   \<and> result_column (calculate_returns example_prices) ''Cumulative'' = Inr []"
proof -
  have "result_column (calculate_returns dip_prices) ''Cumulative''
      = Inr (map (\<lambda>t. Fin (dip_price_values ! t / dip_price_values ! 0)) [63..<length dip_price_values])"
    unfolding dip_prices_def by (rule calculate_returns_loaded(2) [OF dip_facts])
  moreover have "map (\<lambda>t. Fin (dip_price_values ! t / dip_price_values ! 0)) [63..<length dip_price_values]
      = [Fin (99/100)]"
    by (simp add: dip_price_values_def upt_rec)
  moreover have "result_column (calculate_returns example_prices) ''Cumulative''
      = Inr (map (\<lambda>t. Fin ([100, 102, 101, 105] ! t / [100, 102, 101, 105] ! 0))
               [63..<length [100, 102, 101, 105 :: real]])"
    unfolding example_prices_def by (rule calculate_returns_loaded(2)) simp_all
  ultimately show ?thesis by simp
qed


text \<open>
  C2, amended. For a table of positive prices and rates, the cumulative index before
  rows are dropped is \<open>NaN\<close> at row 0 and price[t] / price[0] at every later row \<open>t\<close>, and
  the table \<open>calculate_returns\<close> returns keeps exactly the rows 63, 64, \<dots> with that
  value: the index is not rebased at the first retained row.
\<close>

theorem cumulative_growth_base:
  assumes "length idx = length ps" and "length rs = length ps"
    and "list_all (\<lambda>x. 0 < x) ps" and "list_all (\<lambda>x. 0 < x) rs"
  shows "result_column (derive_columns (loaded idx (map Fin ps) (map Fin rs))) ''Cumulative''
           = Inr (map (\<lambda>t. if t = 0 then NaN else Fin (ps ! t / ps ! 0)) [0..<length ps])
       \<and> result_column (calculate_returns (loaded idx (map Fin ps) (map Fin rs))) ''Cumulative''
           = Inr (map (\<lambda>t. Fin (ps ! t / ps ! 0)) [63..<length ps])"
proof -
  have p: "\<forall>x \<in> set ps. 0 < x" and r: "\<forall>x \<in> set rs. 0 < x"
    using assms(3,4) by (simp_all add: list_all_iff)
  have pn: "\<forall>x \<in> set ps. x \<noteq> 0" and rn: "\<forall>x \<in> set rs. x \<noteq> 0"
    using p r by auto
  show ?thesis
    using derive_cumulative_loaded [OF p] calculate_returns_loaded(2) [OF assms(1,2) pn rn]
    by simp
qed

theorem cumulative_growth_base_witness:
  "length [0, 1, 2, 3 :: nat] = length [100, 102, 101, 105 :: real]
   \<and> length [4, 4, 4, 4 :: real] = length [100, 102, 101, 105 :: real]
   \<and> list_all (\<lambda>x. 0 < x) [100, 102, 101, 105 :: real]
   \<and> list_all (\<lambda>x. 0 < x) [4, 4, 4, 4 :: real]
   \<and> result_column (derive_columns example_prices) ''Cumulative''
        = Inr [NaN, Fin (51/50), Fin (101/100), Fin (21/20)]
   \<and> result_column (calculate_returns example_prices) ''Cumulative'' = Inr []"
proof -
  have h1: "length [0, 1, 2, 3 :: nat] = length [100, 102, 101, 105 :: real]" by simp
  have h2: "length [4, 4, 4, 4 :: real] = length [100, 102, 101, 105 :: real]" by simp
  have h3: "list_all (\<lambda>x. 0 < x) [100, 102, 101, 105 :: real]" by simp
  have h4: "list_all (\<lambda>x. 0 < x) [4, 4, 4, 4 :: real]" by simp
  show ?thesis
    using cumulative_growth_base [OF h1 h2 h3 h4] h1 h2 h3 h4
    by (simp add: example_prices_def upt_rec)
qed

end
